theory Spec2Isabelle
  imports Complex_Main "HOL-Library.Log_Nat"
begin

section \<open>JavaScript numbers\<close>

text \<open>
  Every number of \<^verbatim>\<open>EquirectTile.js\<close> is an IEEE-754 double. A number is modelled by the
  real it denotes, and an arithmetic operator by the exact operation followed by a
  rounding \<open>rnd\<close>, which every function of the model takes as its first argument:
  \<^item> \<open>fl\<close> is the rounding of binary64 (53 significant bits, round to nearest, ties to
    even) on the normal range: no overflow, underflow or NaN;
  \<^item> \<open>exact\<close> rounds nothing: arithmetic over the reals.
  A number written into a \<^verbatim>\<open>Float32Array\<close> is rounded once more, by \<open>fround\<close>.
\<close>

definition rne :: "real \<Rightarrow> int" where
  \<comment> \<open>round to the nearest integer, a tie to the even one\<close>
  "rne r = (let f = \<lfloor>r\<rfloor>; d = r - of_int f
            in if d < 1/2 then f else if 1/2 < d then f + 1
               else if even f then f else f + 1)"

definition ilog2 :: "real \<Rightarrow> int" where
  \<comment> \<open>for \<open>0 < r\<close>: the exponent \<open>e\<close> with \<open>2^e \<le> r < 2^(e+1)\<close>\<close>
  "ilog2 r = (if 1 \<le> r then bitlen \<lfloor>r\<rfloor> - 1 else - bitlen (\<lceil>1 / r\<rceil> - 1))"

definition fl :: "real \<Rightarrow> real" where
  "fl r = (if r = 0 then 0
           else let a = \<bar>r\<bar>; e = ilog2 a - 52
                in sgn r * (if 0 \<le> e then of_int (rne (a / 2 ^ nat e)) * 2 ^ nat e
                            else of_int (rne (a * 2 ^ nat (- e))) / 2 ^ nat (- e)))"

definition fround :: "real \<Rightarrow> real" where
  \<comment> \<open>the rounding of binary32 (24 significant bits, round to nearest, ties to even) on its
      normal range: what storing a number into a \<^verbatim>\<open>Float32Array\<close> does to it\<close>
  "fround r = (if r = 0 then 0
               else let a = \<bar>r\<bar>; e = ilog2 a - 23
                    in sgn r * (if 0 \<le> e then of_int (rne (a / 2 ^ nat e)) * 2 ^ nat e
                                else of_int (rne (a * 2 ^ nat (- e))) / 2 ^ nat (- e)))"

definition exact :: "real \<Rightarrow> real" where
  "exact r = r"

definition jadd :: "(real \<Rightarrow> real) \<Rightarrow> real \<Rightarrow> real \<Rightarrow> real" where
  "jadd rnd a b = rnd (a + b)"

definition jsub :: "(real \<Rightarrow> real) \<Rightarrow> real \<Rightarrow> real \<Rightarrow> real" where
  "jsub rnd a b = rnd (a - b)"

definition jmul :: "(real \<Rightarrow> real) \<Rightarrow> real \<Rightarrow> real \<Rightarrow> real" where
  "jmul rnd a b = rnd (a * b)"

definition jdiv :: "(real \<Rightarrow> real) \<Rightarrow> real \<Rightarrow> real \<Rightarrow> real" where
  \<comment> \<open>the divisor is never zero where the model divides: level dimensions are positive\<close>
  "jdiv rnd a b = rnd (a / b)"

definition js_rem :: "int \<Rightarrow> int \<Rightarrow> int option" where
  \<comment> \<open>\<^verbatim>\<open>a % b\<close> on integers: the sign follows the dividend; \<open>None\<close> is NaN\<close>
  "js_rem a b = (if b = 0 then None else Some (sgn a * (\<bar>a\<bar> mod \<bar>b\<bar>)))"

text \<open>
  The values \<^verbatim>\<open>Math.max\<close> meets in \<^verbatim>\<open>maxTileSize\<close>: numbers, NaN, and function objects
  (a method read as a property and not called).
\<close>

datatype jsval = Number real | NaN | Function string

fun ToNumber :: "jsval \<Rightarrow> jsval" where
  "ToNumber (Number r) = Number r"
| "ToNumber NaN = NaN"
| "ToNumber (Function f) = NaN"

fun Math_max2 :: "jsval \<Rightarrow> jsval \<Rightarrow> jsval" where
  "Math_max2 (Number a) (Number b) = Number (max a b)"
| "Math_max2 _ _ = NaN"

definition Math_max :: "jsval \<Rightarrow> jsval \<Rightarrow> jsval \<Rightarrow> jsval" where
  \<comment> \<open>\<^verbatim>\<open>Math.max(a, b, c)\<close>: each argument goes through ToNumber; NaN if any of them is NaN\<close>
  "Math_max a b c = Math_max2 (Math_max2 (ToNumber a) (ToNumber b)) (ToNumber c)"


section \<open>Data model\<close>

text \<open>
  A level holds the four fields that \<^verbatim>\<open>EquirectTileLevel\<close> copies from its properties
  object; its accessors \<^verbatim>\<open>width()\<close>, \<^verbatim>\<open>height()\<close>, \<^verbatim>\<open>tileWidth()\<close>,
  \<^verbatim>\<open>tileHeight()\<close> are the record's selectors. The dimensions are integers (the data
  model has them positive integers).
\<close>

record level =
  width :: int
  height :: int
  tileWidth :: int
  tileHeight :: int

definition numHorizontalTiles :: "(real \<Rightarrow> real) \<Rightarrow> level \<Rightarrow> int" where
  \<comment> \<open>Modelled from the spec: \<^verbatim>\<open>Level.js\<close> is not among the sources; section 3 has
      \<open>tileColumns = ceil(pixelWidth / tilePixelWidth)\<close>.\<close>
  "numHorizontalTiles rnd l = \<lceil>jdiv rnd (of_int (width l)) (of_int (tileWidth l))\<rceil>"

definition numVerticalTiles :: "(real \<Rightarrow> real) \<Rightarrow> level \<Rightarrow> int" where
  \<comment> \<open>Modelled from the spec: \<^verbatim>\<open>Level.js\<close> is not among the sources; section 3 has
      \<open>tileRows = ceil(pixelHeight / tilePixelHeight)\<close>.\<close>
  "numVerticalTiles rnd l = \<lceil>jdiv rnd (of_int (height l)) (of_int (tileHeight l))\<rceil>"

text \<open>A tile is \<^verbatim>\<open>EquirectTile(x, y, z, geometry)\<close>; the geometry is passed beside it.\<close>

record tile =
  x :: real
  y :: real
  z :: int

text \<open>
  The neighbours cache is an \<^verbatim>\<open>LruMap\<close> of capacity \<^verbatim>\<open>neighborsCacheSize\<close>, keyed by tiles
  through \<^verbatim>\<open>hash\<close> and \<^verbatim>\<open>equals\<close>: within one geometry, equality of the three coordinates.
  The list is kept most recently used first.
\<close>

type_synonym lruMap = "(tile \<times> tile list) list"

definition neighborsCacheSize :: nat where
  "neighborsCacheSize = 64"

definition lru_get :: "lruMap \<Rightarrow> tile \<Rightarrow> tile list option \<times> lruMap" where
  \<comment> \<open>Modelled from the spec: \<^verbatim>\<open>LruMap.js\<close> is not among the sources; sections 3 and 5 have
      a bounded map with least-recently-used eviction whose read bumps the recency.\<close>
  "lru_get c k = (case map_of c k of
                    None \<Rightarrow> (None, c)
                  | Some v \<Rightarrow> (Some v, (k, v) # filter (\<lambda>e. fst e \<noteq> k) c))"

definition lru_set :: "lruMap \<Rightarrow> tile \<Rightarrow> tile list \<Rightarrow> lruMap" where
  \<comment> \<open>Modelled from the spec: \<^verbatim>\<open>LruMap.js\<close> is not among the sources; an insertion beyond
      the capacity evicts the least recently used entry.\<close>
  "lru_set c k v = take neighborsCacheSize ((k, v) # filter (\<lambda>e. fst e \<noteq> k) c)"

record geometry =
  levelList :: "level list"
  neighborsCache :: lruMap

definition levelAt :: "geometry \<Rightarrow> int \<Rightarrow> level option" where
  \<comment> \<open>\<^verbatim>\<open>geometry.levelList[z]\<close>; \<open>None\<close> is \<^verbatim>\<open>undefined\<close>\<close>
  "levelAt g i = (if 0 \<le> i \<and> i < int (length (levelList g))
                  then Some (levelList g ! nat i) else None)"

text \<open>
  What the source throws (\<open>Inl\<close> of a result), and the \<^verbatim>\<open>Error\<close> objects that
  \<^verbatim>\<open>_validateWithParentLevel\<close> builds. \<open>TypeError\<close> is a method call on \<^verbatim>\<open>undefined\<close>.
\<close>

datatype error =
    LevelListNotArray
  | NoSelectableLevels
  | WidthNotMultiple int int
  | HeightNotMultiple int int
  | TileWidthNotMultiple int int
  | TileHeightNotMultiple int int
  | StartingTileNotVisible
  | TypeError


section \<open>Level hierarchy\<close>

definition validateWithParentLevel :: "level \<Rightarrow> level \<Rightarrow> error + error option" where
  \<comment> \<open>Each failed check ends in \<^verbatim>\<open>return new Error(...)\<close>: the error object is the value
      returned (\<open>Inr (Some e)\<close>); nothing is thrown, and falling through returns \<^verbatim>\<open>undefined\<close>.\<close>
  "validateWithParentLevel this parentLevel =
     (if js_rem (width this) (width parentLevel) \<noteq> Some 0
        then Inr (Some (WidthNotMultiple (width this) (width parentLevel)))
      else if js_rem (height this) (height parentLevel) \<noteq> Some 0
        then Inr (Some (HeightNotMultiple (height this) (height parentLevel)))
      else if js_rem (tileWidth this) (tileWidth parentLevel) \<noteq> Some 0
        then Inr (Some (TileWidthNotMultiple (tileWidth this) (tileWidth parentLevel)))
      else if js_rem (tileHeight this) (tileHeight parentLevel) \<noteq> Some 0
        then Inr (Some (TileHeightNotMultiple (tileHeight this) (tileHeight parentLevel)))
      else Inr None)"

fun validateLevels :: "level list \<Rightarrow> error + unit" where
  \<comment> \<open>the constructor's loop \<^verbatim>\<open>for (i = 1; i < levelList.length; i++)\<close>: each call is an
      expression statement, so a throw would leave the loop and the returned value is dropped\<close>
  "validateLevels (parentLevel # this # rest) =
     (case validateWithParentLevel this parentLevel of
        Inl e \<Rightarrow> Inl e
      | Inr _ \<Rightarrow> validateLevels (this # rest))"
| "validateLevels _ = Inr ()"

datatype levelPropertiesList = NotAnArray | Array "level list"

definition makeLevelList :: "level list \<Rightarrow> level list" where
  \<comment> \<open>Modelled from the spec: \<^verbatim>\<open>common.js\<close> is not among the sources; the pyramid is the
      ordered sequence of levels, one per properties object.\<close>
  "makeLevelList ps = map (\<lambda>p. p) ps"

definition makeSelectableLevelList :: "level list \<Rightarrow> error + level list" where
  \<comment> \<open>Modelled from the spec: \<^verbatim>\<open>common.js\<close> is not among the sources; section 4.1 has the
      construction fail when the sequence of levels is empty.\<close>
  "makeSelectableLevelList ls = (if ls = [] then Inl NoSelectableLevels else Inr ls)"

definition EquirectTileGeometry :: "levelPropertiesList \<Rightarrow> error + geometry" where
  \<comment> \<open>the selectable levels are kept in a field that no method modelled here reads\<close>
  "EquirectTileGeometry levelPropertiesList =
     (case levelPropertiesList of
        NotAnArray \<Rightarrow> Inl LevelListNotArray
      | Array ps \<Rightarrow>
          (let ls = makeLevelList ps
           in case makeSelectableLevelList ls of
                Inl e \<Rightarrow> Inl e
              | Inr selectableLevelList \<Rightarrow>
                  (case validateLevels ls of
                     Inl e \<Rightarrow> Inl e
                   | Inr _ \<Rightarrow> Inr \<lparr>levelList = ls, neighborsCache = []\<rparr>)))"

definition levelProperty_tileWidth :: "level \<Rightarrow> jsval" where
  \<comment> \<open>\<^verbatim>\<open>level.tileWidth\<close> with no call: the accessor method, a function object\<close>
  "levelProperty_tileWidth l = Function ''tileWidth''"

definition levelProperty_tileHeight :: "level \<Rightarrow> jsval" where
  \<comment> \<open>\<^verbatim>\<open>level.tileHeight\<close> with no call\<close>
  "levelProperty_tileHeight l = Function ''tileHeight''"

definition maxTileSize :: "geometry \<Rightarrow> jsval" where
  "maxTileSize g =
     fold (\<lambda>l maxTileSize. Math_max maxTileSize (levelProperty_tileWidth l) (levelProperty_tileHeight l))
          (levelList g) (Number 0)"

definition maxTileDimension :: "geometry \<Rightarrow> int" where
  \<comment> \<open>the specification's words (section 4.1): the maximum tile pixel dimension across all
      levels, to be compared with \<open>maxTileSize\<close>\<close>
  "maxTileDimension g = fold (\<lambda>l m. max m (max (tileWidth l) (tileHeight l))) (levelList g) 0"


section \<open>Tiles\<close>

definition util_mod :: "int \<Rightarrow> int \<Rightarrow> int" where
  \<comment> \<open>Modelled from the spec: \<^verbatim>\<open>util/mod.js\<close> is not among the sources; sections 4.1 and
      4.5 use it as the modulo that wraps into \<open>[0, b)\<close>.\<close>
  "util_mod a b = a mod b"

definition util_clamp :: "real \<Rightarrow> real \<Rightarrow> real \<Rightarrow> real" where
  \<comment> \<open>Modelled from the spec: \<^verbatim>\<open>util/clamp.js\<close> is not among the sources; section 4.5 has
      \<open>clamp(value, 0, tileRows-1)\<close>.\<close>
  "util_clamp v lo hi = min (max v lo) hi"

text \<open>
  The methods of a tile read \<^verbatim>\<open>this._level\<close>, which is \<^verbatim>\<open>geometry.levelList[z]\<close>. The
  helpers below take that level as \<open>l\<close>; the methods that start from the tile alone
  look it up and raise \<open>TypeError\<close> where it is \<^verbatim>\<open>undefined\<close>.
\<close>

definition minX :: "(real \<Rightarrow> real) \<Rightarrow> level \<Rightarrow> tile \<Rightarrow> real" where
  "minX rnd l t = jdiv rnd (jmul rnd (x t) (of_int (tileWidth l))) (of_int (width l))"

definition minY :: "(real \<Rightarrow> real) \<Rightarrow> level \<Rightarrow> tile \<Rightarrow> real" where
  "minY rnd l t = jdiv rnd (jmul rnd (y t) (of_int (tileHeight l))) (of_int (height l))"

definition tile_width :: "(real \<Rightarrow> real) \<Rightarrow> level \<Rightarrow> tile \<Rightarrow> int" where
  \<comment> \<open>\<^verbatim>\<open>EquirectTile.prototype.width\<close>; \<^verbatim>\<open>widthRemainder || tileWidth\<close> takes the tile
      width when the remainder is 0\<close>
  "tile_width rnd l t =
     (if x t = jsub rnd (of_int (numHorizontalTiles rnd l)) 1
      then (let widthRemainder = util_mod (width l) (tileWidth l)
            in if widthRemainder \<noteq> 0 then widthRemainder else tileWidth l)
      else tileWidth l)"

definition tile_height :: "(real \<Rightarrow> real) \<Rightarrow> level \<Rightarrow> tile \<Rightarrow> int" where
  \<comment> \<open>\<^verbatim>\<open>EquirectTile.prototype.height\<close>\<close>
  "tile_height rnd l t =
     (if y t = jsub rnd (of_int (numVerticalTiles rnd l)) 1
      then (let heightRemainder = util_mod (height l) (tileHeight l)
            in if heightRemainder \<noteq> 0 then heightRemainder else tileHeight l)
      else tileHeight l)"

definition scaleX :: "(real \<Rightarrow> real) \<Rightarrow> level \<Rightarrow> tile \<Rightarrow> real" where
  "scaleX rnd l t = jdiv rnd (of_int (tile_width rnd l t)) (of_int (width l))"

definition scaleY :: "(real \<Rightarrow> real) \<Rightarrow> level \<Rightarrow> tile \<Rightarrow> real" where
  "scaleY rnd l t = jdiv rnd (of_int (tile_height rnd l t)) (of_int (height l))"

subsection \<open>Quadtree navigation\<close>

definition parent :: "(real \<Rightarrow> real) \<Rightarrow> geometry \<Rightarrow> tile \<Rightarrow> error + tile option" where
  \<comment> \<open>\<open>Inr None\<close> is the \<^verbatim>\<open>null\<close> of level 0\<close>
  "parent rnd g t =
     (if z t = 0 then Inr None
      else case levelAt g (z t) of
        None \<Rightarrow> Inl TypeError
      | Some level \<Rightarrow>
         (case levelAt g (z t - 1) of
            None \<Rightarrow> Inl TypeError
          | Some parentLevel \<Rightarrow>
              Inr (Some \<lparr>
                x = of_int \<lfloor>jdiv rnd (x t)
                      (jdiv rnd (of_int (numHorizontalTiles rnd level))
                                (of_int (numHorizontalTiles rnd parentLevel)))\<rfloor>,
                y = of_int \<lfloor>jdiv rnd (y t)
                      (jdiv rnd (of_int (numVerticalTiles rnd level))
                                (of_int (numVerticalTiles rnd parentLevel)))\<rfloor>,
                z = z t - 1\<rparr>)))"

definition counters :: "real \<Rightarrow> nat list" where
  \<comment> \<open>the values of \<open>i\<close> in \<^verbatim>\<open>for (var i = 0; i < b; i++)\<close>, in order\<close>
  "counters b = [0..<nat \<lceil>b\<rceil>]"

definition children :: "(real \<Rightarrow> real) \<Rightarrow> geometry \<Rightarrow> tile \<Rightarrow> tile list option
    \<Rightarrow> error + tile list option" where
  \<comment> \<open>\<open>result\<close> is the optional array to append to; \<open>Inr None\<close> is the \<^verbatim>\<open>null\<close> of the
      last level\<close>
  "children rnd g t result =
     (if z t = int (length (levelList g)) - 1 then Inr None
      else case levelAt g (z t) of
        None \<Rightarrow> Inl TypeError
      | Some level \<Rightarrow>
         (case levelAt g (z t + 1) of
            None \<Rightarrow> Inl TypeError
          | Some childLevel \<Rightarrow>
              (let xscale = jdiv rnd (of_int (numHorizontalTiles rnd childLevel))
                                     (of_int (numHorizontalTiles rnd level));
                   yscale = jdiv rnd (of_int (numVerticalTiles rnd childLevel))
                                     (of_int (numVerticalTiles rnd level))
               in Inr (Some ((case result of None \<Rightarrow> [] | Some r \<Rightarrow> r) @
                    concat (map (\<lambda>i. map (\<lambda>j.
                        \<lparr>x = jadd rnd (jmul rnd xscale (x t)) (of_nat i),
                         y = jadd rnd (jmul rnd yscale (y t)) (of_nat j),
                         z = z t + 1\<rparr>) (counters yscale)) (counters xscale)))))))"

subsection \<open>Sphere projection\<close>

text \<open>
  \<^verbatim>\<open>Math.PI\<close> is the double nearest to \<open>\<pi>\<close>. \<^verbatim>\<open>Math.sin\<close> and \<^verbatim>\<open>Math.cos\<close> are taken as the
  rounded sine and cosine (the language leaves their last bits to the implementation).
  \<^verbatim>\<open>vec3.set\<close> writes the three components into a vector, which rounds them to the element
  type of the vector: \<open>store\<close> is that rounding, \<open>fround\<close> for the \<^verbatim>\<open>Float32Array\<close> that
  \<^verbatim>\<open>vec3.create()\<close> allocates.
\<close>

definition Math_PI :: "(real \<Rightarrow> real) \<Rightarrow> real" where
  "Math_PI rnd = rnd pi"

definition Math_sin :: "(real \<Rightarrow> real) \<Rightarrow> real \<Rightarrow> real" where
  "Math_sin rnd a = rnd (sin a)"

definition Math_cos :: "(real \<Rightarrow> real) \<Rightarrow> real \<Rightarrow> real" where
  "Math_cos rnd a = rnd (cos a)"

definition makeVertex ::
  "(real \<Rightarrow> real) \<Rightarrow> (real \<Rightarrow> real) \<Rightarrow> real \<Rightarrow> real \<Rightarrow> real \<times> real \<times> real" where
  "makeVertex rnd store yaw pitch =
     (store (jmul rnd (Math_sin rnd yaw) (Math_cos rnd pitch)),
      store (- Math_sin rnd pitch),
      store (jmul rnd (Math_cos rnd yaw) (Math_cos rnd pitch)))"

definition vertices ::
  "(real \<Rightarrow> real) \<Rightarrow> (real \<Rightarrow> real) \<Rightarrow> geometry \<Rightarrow> tile
     \<Rightarrow> error + (real \<times> real \<times> real) list" where
  \<comment> \<open>the four vectors \<^verbatim>\<open>result[0..3]\<close>; \<open>store\<close> is \<open>fround\<close> when the call allocates them\<close>
  "vertices rnd store g t =
     (case levelAt g (z t) of
        None \<Rightarrow> Inl TypeError
      | Some l \<Rightarrow>
         (let left = jmul rnd (jmul rnd (- minX rnd l t) (Math_PI rnd)) 2;
              right = jsub rnd left (jmul rnd (jmul rnd (scaleX rnd l t) (Math_PI rnd)) 2);
              bottom = jmul rnd (- jsub rnd (minY rnd l t) (1/2)) (Math_PI rnd);
              top = jsub rnd bottom (jmul rnd (scaleY rnd l t) (Math_PI rnd))
          in Inr [makeVertex rnd store left top, makeVertex rnd store right top,
                  makeVertex rnd store right bottom, makeVertex rnd store left bottom]))"

definition footprintAngles :: "(real \<Rightarrow> real) \<Rightarrow> level \<Rightarrow> tile \<Rightarrow> (real \<times> real) list" where
  \<comment> \<open>the specification's words (section 4.4): the corner angles \<open>yaw = -minX * 2\<pi>\<close> or
      \<open>-(minX + scaleX) * 2\<pi>\<close> and \<open>pitch = -(minY - 0.5) * \<pi>\<close> or \<open>-(minY + scaleY - 0.5) * \<pi>\<close>,
      in the order of \<^verbatim>\<open>result[0..3]\<close>, to be compared with the angles of \<open>vertices\<close>\<close>
  "footprintAngles rnd l t =
     (let yawNear = jmul rnd (- minX rnd l t) (jmul rnd 2 (Math_PI rnd));
          yawFar = jmul rnd (- jadd rnd (minX rnd l t) (scaleX rnd l t)) (jmul rnd 2 (Math_PI rnd));
          pitchNear = jmul rnd (- jsub rnd (minY rnd l t) (1/2)) (Math_PI rnd);
          pitchFar = jmul rnd (- jsub rnd (jadd rnd (minY rnd l t) (scaleY rnd l t)) (1/2)) (Math_PI rnd)
      in [(yawNear, pitchFar), (yawFar, pitchFar), (yawFar, pitchNear), (yawNear, pitchNear)])"

definition verticesSpec ::
  "(real \<Rightarrow> real) \<Rightarrow> (real \<Rightarrow> real) \<Rightarrow> level \<Rightarrow> tile \<Rightarrow> (real \<times> real \<times> real) list" where
  \<comment> \<open>the specification's words (section 4.4): each corner \<open>(yaw, pitch)\<close> of the footprint
      mapped to \<open>(sin yaw * cos pitch, - sin pitch, cos yaw * cos pitch)\<close>\<close>
  "verticesSpec rnd store l t =
     map (\<lambda>(yaw, pitch). makeVertex rnd store yaw pitch) (footprintAngles rnd l t)"

subsection \<open>Neighbours\<close>

definition neighborOffsets :: "(real \<times> real) list" where
  \<comment> \<open>top, right, bottom, left\<close>
  "neighborOffsets = [(0, 1), (1, 0), (0, -1), (-1, 0)]"

definition neighborAt :: "(real \<Rightarrow> real) \<Rightarrow> level \<Rightarrow> tile \<Rightarrow> real \<times> real \<Rightarrow> tile list" where
  \<comment> \<open>one round of the loop of \<^verbatim>\<open>neighbors\<close>: the tile it pushes, if any\<close>
  "neighborAt rnd level t off =
     (let numX = jsub rnd (of_int (numHorizontalTiles rnd level)) 1;
          numY = jsub rnd (of_int (numVerticalTiles rnd level)) 1;
          xOffset = fst off;
          yOffset = snd off;
          newX = jadd rnd (x t) xOffset;
          newY = jadd rnd (y t) yOffset;
          newZ = z t;
          newX1 = (if newX < 0 then numX else newX);
          newX2 = (if newX1 > numX then 0 else newX1)
      in if 0 \<le> newY \<and> newY \<le> numY then [\<lparr>x = newX2, y = newY, z = newZ\<rparr>] else [])"

definition computeNeighbors :: "(real \<Rightarrow> real) \<Rightarrow> level \<Rightarrow> tile \<Rightarrow> tile list" where
  \<comment> \<open>the loop over \<^verbatim>\<open>neighborOffsets\<close>\<close>
  "computeNeighbors rnd level t = concat (map (neighborAt rnd level t) neighborOffsets)"

definition neighbors :: "(real \<Rightarrow> real) \<Rightarrow> geometry \<Rightarrow> tile \<Rightarrow> error + tile list \<times> geometry" where
  \<comment> \<open>returns the list and the geometry with its cache updated\<close>
  "neighbors rnd g t =
     (case lru_get (neighborsCache g) t of
        (Some cachedResult, c) \<Rightarrow> Inr (cachedResult, g\<lparr>neighborsCache := c\<rparr>)
      | (None, c) \<Rightarrow>
         (case levelAt g (z t) of
            None \<Rightarrow> Inl TypeError
          | Some level \<Rightarrow>
              (let result = computeNeighbors rnd level t
               in Inr (result, g\<lparr>neighborsCache := lru_set c t result\<rparr>))))"


section \<open>Visible tiles\<close>

text \<open>
  A view is read through \<^verbatim>\<open>yaw()\<close>, \<^verbatim>\<open>pitch()\<close> and \<^verbatim>\<open>size()\<close>. A level argument is an
  object: either the level at a position of \<^verbatim>\<open>levelList\<close> (where \<^verbatim>\<open>indexOf\<close> finds it),
  or a level object of other origin (\<^verbatim>\<open>indexOf\<close> gives -1).
\<close>

record view =
  yaw :: real
  pitch :: real
  size_width :: real
  size_height :: real

datatype levelArg = OwnLevel nat | OtherLevel level

definition argLevel :: "geometry \<Rightarrow> levelArg \<Rightarrow> level option" where
  "argLevel g a = (case a of OwnLevel i \<Rightarrow> levelAt g (int i) | OtherLevel l \<Rightarrow> Some l)"

definition indexOf :: "geometry \<Rightarrow> levelArg \<Rightarrow> int" where
  "indexOf g a = (case a of OwnLevel i \<Rightarrow> int i | OtherLevel l \<Rightarrow> - 1)"

definition closestTile :: "(real \<Rightarrow> real) \<Rightarrow> geometry \<Rightarrow> view \<Rightarrow> levelArg \<Rightarrow> error + tile" where
  "closestTile rnd g v a =
     (case argLevel g a of
        None \<Rightarrow> Inl TypeError
      | Some level \<Rightarrow>
         (let fx = jadd rnd (jdiv rnd (yaw v) (jmul rnd 2 (Math_PI rnd))) (1/2);
              fy = jadd rnd (jdiv rnd (- pitch v) (Math_PI rnd)) (1/2);
              tileZ = indexOf g a;
              levelWidth = width level;
              levelHeight = height level;
              numX = numHorizontalTiles rnd level;
              numY = numVerticalTiles rnd level;
              tileX = util_mod \<lfloor>jdiv rnd (jmul rnd fx (of_int levelWidth)) (of_int (tileWidth level))\<rfloor> numX;
              tileY = util_clamp
                        (of_int \<lfloor>jdiv rnd (jmul rnd fy (of_int levelHeight)) (of_int (tileHeight level))\<rfloor>)
                        0 (jsub rnd (of_int numY) 1)
          in Inr \<lparr>x = of_int tileX, y = tileY, z = tileZ\<rparr>))"

definition visibleTiles ::
  "(real \<Rightarrow> real) \<Rightarrow> (view \<Rightarrow> tile \<Rightarrow> tile list \<Rightarrow> nat \<times> tile list)
     \<Rightarrow> geometry \<Rightarrow> view \<Rightarrow> levelArg \<Rightarrow> tile list option \<Rightarrow> error + tile list" where
  \<comment> \<open>\<open>search\<close> is \<^verbatim>\<open>TileSearcher.search\<close>, which is not among the sources: it returns the
      count of tiles found and the array with them appended. Before it throws, the failing
      branch logs \<^verbatim>\<open>startingTile.vertices()\<close>, which can throw first (the vectors themselves
      are not used).\<close>
  "visibleTiles rnd search g v a result =
     (let result1 = (case result of None \<Rightarrow> [] | Some r \<Rightarrow> r)
      in if size_width v = 0 \<or> size_height v = 0
         then Inr result1
         else case closestTile rnd g v a of
                Inl e \<Rightarrow> Inl e
              | Inr startingTile \<Rightarrow>
                  (case search v startingTile result1 of
                     (count, result2) \<Rightarrow>
                       if count = 0
                       then (case vertices rnd fround g startingTile of
                               Inl e \<Rightarrow> Inl e
                             | Inr _ \<Rightarrow> Inl StartingTileNotVisible)
                       else Inr result2))"


section \<open>Well-formed states\<close>

text \<open>
  A tile address (section 3 of the specification): the level exists, column and row are
  integers, and they lie within the level's grid.
\<close>

definition tileAddress :: "(real \<Rightarrow> real) \<Rightarrow> geometry \<Rightarrow> tile \<Rightarrow> bool" where
  "tileAddress rnd g t =
     (case levelAt g (z t) of
        None \<Rightarrow> False
      | Some l \<Rightarrow> x t = of_int \<lfloor>x t\<rfloor> \<and> 0 \<le> x t \<and> x t < of_int (numHorizontalTiles rnd l)
                \<and> y t = of_int \<lfloor>y t\<rfloor> \<and> 0 \<le> y t \<and> y t < of_int (numVerticalTiles rnd l))"

text \<open>
  The cache holds only what \<^verbatim>\<open>neighbors\<close> stored: each entry maps a tile to the list that
  the loop computes for it. It holds of a new geometry and \<^verbatim>\<open>neighbors\<close> preserves it
  (lemmas \<open>cache_ok_new\<close> and \<open>neighbors_result\<close>).
\<close>

definition cache_ok :: "(real \<Rightarrow> real) \<Rightarrow> geometry \<Rightarrow> bool" where
  "cache_ok rnd g =
     (\<forall>e \<in> set (neighborsCache g).
        case levelAt g (z (fst e)) of
          None \<Rightarrow> False
        | Some l \<Rightarrow> snd e = computeNeighbors rnd l (fst e))"


text \<open>
  The level hierarchy invariant (section 3 of the specification) in the code's own terms:
  \<^verbatim>\<open>_validateWithParentLevel\<close> finds nothing to report between each level and its
  predecessor, that is, each of the four remainders is 0.
\<close>

fun hierarchyInvariant :: "level list \<Rightarrow> bool" where
  "hierarchyInvariant (parentLevel # this # rest) =
     (validateWithParentLevel this parentLevel = Inr None \<and> hierarchyInvariant (this # rest))"
| "hierarchyInvariant _ = True"

text \<open>The dimensions of a level are positive integers (section 3).\<close>

definition positiveLevel :: "level \<Rightarrow> bool" where
  "positiveLevel l = (0 < width l \<and> 0 < height l \<and> 0 < tileWidth l \<and> 0 < tileHeight l)"


section \<open>Construction and validation\<close>

lemma validateLevels_returns: "validateLevels ls = Inr ()"
  by (induction ls rule: validateLevels.induct) (auto simp: validateWithParentLevel_def)

lemma construct_never_fails:
  "ps \<noteq> [] \<Longrightarrow> EquirectTileGeometry (Array ps) = Inr \<lparr>levelList = ps, neighborsCache = []\<rparr>"
  by (simp add: EquirectTileGeometry_def makeLevelList_def makeSelectableLevelList_def
      validateLevels_returns)

lemma construct_empty_fails: "EquirectTileGeometry (Array []) = Inl NoSelectableLevels"
  by (simp add: EquirectTileGeometry_def makeLevelList_def makeSelectableLevelList_def)

text \<open>
  C1. Constructing a geometry from a level list in which a level is not a multiple of its
  predecessor is claimed to fail. It does not: \<^verbatim>\<open>_validateWithParentLevel\<close> builds the
  error and returns it, the constructor drops the returned value, and the geometry is
  built. Here the second level is 1000 pixels wide over a first level of 512: the check
  yields its \<^verbatim>\<open>Error\<close> object and the construction returns the geometry all the same.
\<close>

theorem construct_returns_for_non_multiple_level:
  "validateWithParentLevel \<lparr>width = 1000, height = 1000, tileWidth = 512, tileHeight = 512\<rparr>
       \<lparr>width = 512, height = 512, tileWidth = 512, tileHeight = 512\<rparr>
     = Inr (Some (WidthNotMultiple 1000 512))
   \<and> EquirectTileGeometry (Array
       [\<lparr>width = 512, height = 512, tileWidth = 512, tileHeight = 512\<rparr>,
        \<lparr>width = 1000, height = 1000, tileWidth = 512, tileHeight = 512\<rparr>])
     = Inr \<lparr>levelList =
              [\<lparr>width = 512, height = 512, tileWidth = 512, tileHeight = 512\<rparr>,
               \<lparr>width = 1000, height = 1000, tileWidth = 512, tileHeight = 512\<rparr>],
            neighborsCache = []\<rparr>"
  by (simp add: EquirectTileGeometry_def makeLevelList_def makeSelectableLevelList_def
      validateWithParentLevel_def js_rem_def)


section \<open>The largest tile size\<close>

lemma maxTileSize_step:
  "Math_max m (levelProperty_tileWidth l) (levelProperty_tileHeight l) = NaN"
  by (cases m) (simp_all add: Math_max_def levelProperty_tileWidth_def levelProperty_tileHeight_def)

lemma fold_NaN: "fold (\<lambda>l m. NaN) ls NaN = NaN"
  by (induction ls) simp_all

lemma maxTileSize_NaN: "levelList g \<noteq> [] \<Longrightarrow> maxTileSize g = NaN"
  by (cases "levelList g") (simp_all add: maxTileSize_def maxTileSize_step fold_NaN)

text \<open>
  C3. \<^verbatim>\<open>maxTileSize()\<close> is claimed to return the largest tile dimension over all levels.
  The loop passes \<^verbatim>\<open>level.tileWidth\<close> and \<^verbatim>\<open>level.tileHeight\<close> to \<^verbatim>\<open>Math.max\<close> without calling
  them, so the arguments are function objects and the result is NaN as soon as there is
  a level. On the pyramid of two levels with tiles of 512 pixels the largest tile
  dimension is 512 and \<^verbatim>\<open>maxTileSize()\<close> is NaN.
\<close>

theorem maxTileSize_is_NaN_on_pyramid:
  "maxTileSize \<lparr>levelList =
       [\<lparr>width = 512, height = 512, tileWidth = 512, tileHeight = 512\<rparr>,
        \<lparr>width = 1024, height = 1024, tileWidth = 512, tileHeight = 512\<rparr>],
      neighborsCache = []\<rparr> = NaN
   \<and> maxTileDimension \<lparr>levelList =
       [\<lparr>width = 512, height = 512, tileWidth = 512, tileHeight = 512\<rparr>,
        \<lparr>width = 1024, height = 1024, tileWidth = 512, tileHeight = 512\<rparr>],
      neighborsCache = []\<rparr> = 512"
  by (simp add: maxTileSize_def maxTileDimension_def Math_max_def
      levelProperty_tileWidth_def levelProperty_tileHeight_def)


section \<open>Rounding of integers\<close>

text \<open>Every integer of magnitude below \<open>2^53\<close> is a double: \<open>fl\<close> leaves it as it is.\<close>

lemma rne_of_int: "rne (of_int m) = m"
  by (simp add: rne_def)

lemma bitlen_le_53: "0 < n \<Longrightarrow> n < 2 ^ 53 \<Longrightarrow> bitlen n \<le> 53"
  by (simp add: bitlen_le_iff_power)

lemma fl_of_int_pos:
  assumes "0 < n" "n < 2 ^ 53"
  shows "fl (of_int n) = of_int n"
proof -
  have e: "ilog2 (of_int n) = bitlen n - 1"
    using assms by (simp add: ilog2_def)
  have b: "bitlen n \<le> 53" using assms by (rule bitlen_le_53)
  show ?thesis
  proof (cases "bitlen n = 53")
    case True
    then show ?thesis using assms by (simp add: fl_def e Let_def rne_of_int)
  next
    case False
    with b have lt: "bitlen n - 1 - 52 < 0" by simp
    have "rne (of_int n * 2 ^ nat (- (bitlen n - 1 - 52))) = n * 2 ^ nat (- (bitlen n - 1 - 52))"
      using rne_of_int[of "n * 2 ^ nat (- (bitlen n - 1 - 52))"] by simp
    then show ?thesis using assms lt by (simp add: fl_def e Let_def)
  qed
qed

lemma fl_neg: "fl (- r) = - fl r"
  by (simp add: fl_def Let_def sgn_real_def)

lemma fl_of_int: "\<bar>n\<bar> < 2 ^ 53 \<Longrightarrow> fl (of_int n) = of_int n"
proof (cases "n = 0")
  case True then show ?thesis by (simp add: fl_def)
next
  case False
  assume b: "\<bar>n\<bar> < 2 ^ 53"
  show ?thesis
  proof (cases "0 < n")
    case True with b show ?thesis by (simp add: fl_of_int_pos)
  next
    case F: False
    with False b have "0 < - n" "- n < 2 ^ 53" by simp_all
    then have "fl (of_int (- n)) = of_int (- n)" by (rule fl_of_int_pos)
    then show ?thesis by (simp add: fl_neg)
  qed
qed


section \<open>Neighbours\<close>

lemma cache_ok_iff:
  "cache_ok rnd g \<longleftrightarrow>
     (\<forall>e \<in> set (neighborsCache g).
        \<exists>l. levelAt g (z (fst e)) = Some l \<and> snd e = computeNeighbors rnd l (fst e))"
  by (auto simp: cache_ok_def split: option.splits)

lemma cache_ok_new: "EquirectTileGeometry a = Inr g \<Longrightarrow> cache_ok rnd g"
  by (cases a) (auto simp: EquirectTileGeometry_def cache_ok_iff Let_def split: sum.splits)

lemma levelAt_cache_upd [simp]: "levelAt (g\<lparr>neighborsCache := c\<rparr>) i = levelAt g i"
  by (simp add: levelAt_def)

lemma neighbors_result:
  assumes "cache_ok rnd g" and "levelAt g (z t) = Some l"
  shows "\<exists>g'. neighbors rnd g t = Inr (computeNeighbors rnd l t, g')
            \<and> levelList g' = levelList g \<and> cache_ok rnd g'"
proof (cases "map_of (neighborsCache g) t")
  case None
  have sub: "set (lru_set (neighborsCache g) t v) \<subseteq> insert (t, v) (set (neighborsCache g))" for v
    by (auto simp: lru_set_def dest: in_set_takeD)
  have "cache_ok rnd (g\<lparr>neighborsCache := lru_set (neighborsCache g) t (computeNeighbors rnd l t)\<rparr>)"
    unfolding cache_ok_iff
  proof
    fix e assume "e \<in> set (neighborsCache (g\<lparr>neighborsCache := lru_set (neighborsCache g) t (computeNeighbors rnd l t)\<rparr>))"
    then have "e = (t, computeNeighbors rnd l t) \<or> e \<in> set (neighborsCache g)"
      using sub by auto
    then show "\<exists>la. levelAt (g\<lparr>neighborsCache := lru_set (neighborsCache g) t (computeNeighbors rnd l t)\<rparr>) (z (fst e)) = Some la
              \<and> snd e = computeNeighbors rnd la (fst e)"
      using assms by (auto simp: cache_ok_iff)
  qed
  with None assms(2) show ?thesis
    by (simp add: neighbors_def lru_get_def Let_def)
next
  case (Some v)
  then have mem: "(t, v) \<in> set (neighborsCache g)" by (rule map_of_SomeD)
  with assms have v: "v = computeNeighbors rnd l t"
    by (auto simp: cache_ok_iff)
  have "cache_ok rnd (g\<lparr>neighborsCache := (t, v) # filter (\<lambda>e. fst e \<noteq> t) (neighborsCache g)\<rparr>)"
    using assms(1) mem by (auto simp: cache_ok_iff)
  with Some v show ?thesis
    by (simp add: neighbors_def lru_get_def)
qed


lemma neighborAt_address:
  assumes "numHorizontalTiles fl l = N" "N < 2 ^ 53" "numVerticalTiles fl l = M" "M < 2 ^ 53"
    and "x t = of_int i" "0 \<le> i" "i < N"
    and "y t = of_int j" "0 \<le> j" "j < M"
  shows "neighborAt fl l t (0, 1) =
           (if j + 1 < M then [\<lparr>x = of_int i, y = of_int (j + 1), z = z t\<rparr>] else [])"
    and "neighborAt fl l t (1, 0) =
           [\<lparr>x = (if i = N - 1 then 0 else of_int (i + 1)), y = of_int j, z = z t\<rparr>]"
    and "neighborAt fl l t (0, - 1) =
           (if 0 < j then [\<lparr>x = of_int i, y = of_int (j - 1), z = z t\<rparr>] else [])"
    and "neighborAt fl l t (- 1, 0) =
           [\<lparr>x = (if i = 0 then of_int (N - 1) else of_int (i - 1)), y = of_int j, z = z t\<rparr>]"
proof -
  have r: "fl (of_int k) = of_int k" if "- 1 \<le> k" "k \<le> N \<or> k \<le> M" for k
    using fl_of_int[of k] that assms by auto
  have a: "fl (of_int j + 1) = of_int (j + 1)" "fl (of_int j - 1) = of_int (j - 1)"
          "fl (of_int i + 1) = of_int (i + 1)" "fl (of_int i - 1) = of_int (i - 1)"
          "fl (of_int M - 1) = of_int (M - 1)" "fl (of_int N - 1) = of_int (N - 1)"
          "fl (of_int i) = of_int i" "fl (of_int j) = of_int j"
          "fl (- 1) = - 1" "fl 1 = 1" "fl 0 = 0"
    using fl_of_int[of "- 1"] fl_of_int[of 1] fl_of_int[of 0] r[of "j + 1"] r[of "j - 1"] r[of "i + 1"] r[of "i - 1"] r[of "M - 1"] r[of "N - 1"]
      r[of i] r[of j] assms by simp_all
  show "neighborAt fl l t (0, 1) =
           (if j + 1 < M then [\<lparr>x = of_int i, y = of_int (j + 1), z = z t\<rparr>] else [])"
    using assms by (simp add: neighborAt_def Let_def jadd_def jsub_def a del: of_int_add of_int_diff)
  show "neighborAt fl l t (1, 0) =
           [\<lparr>x = (if i = N - 1 then 0 else of_int (i + 1)), y = of_int j, z = z t\<rparr>]"
    using assms by (simp add: neighborAt_def Let_def jadd_def jsub_def a del: of_int_add of_int_diff)
  show "neighborAt fl l t (0, - 1) =
           (if 0 < j then [\<lparr>x = of_int i, y = of_int (j - 1), z = z t\<rparr>] else [])"
    using assms by (simp add: neighborAt_def Let_def jadd_def jsub_def a del: of_int_add of_int_diff)
  show "neighborAt fl l t (- 1, 0) =
           [\<lparr>x = (if i = 0 then of_int (N - 1) else of_int (i - 1)), y = of_int j, z = z t\<rparr>]"
    using assms by (simp add: neighborAt_def Let_def jadd_def jsub_def a del: of_int_add of_int_diff)
qed

lemma tileAddress_ints:
  assumes "tileAddress rnd g t" "levelAt g (z t) = Some l"
  shows "x t = of_int \<lfloor>x t\<rfloor>" "0 \<le> \<lfloor>x t\<rfloor>" "\<lfloor>x t\<rfloor> < numHorizontalTiles rnd l"
        "y t = of_int \<lfloor>y t\<rfloor>" "0 \<le> \<lfloor>y t\<rfloor>" "\<lfloor>y t\<rfloor> < numVerticalTiles rnd l"
  using assms by (auto simp: tileAddress_def floor_less_iff)

lemma computeNeighbors_eq:
  "computeNeighbors rnd l t =
     neighborAt rnd l t (0, 1) @ neighborAt rnd l t (1, 0) @
     neighborAt rnd l t (0, - 1) @ neighborAt rnd l t (- 1, 0)"
  by (simp add: computeNeighbors_def neighborOffsets_def)

text \<open>
  C6. Horizontal wrap-around. For a tile address at a level of \<open>N\<close> columns, \<^verbatim>\<open>neighbors()\<close>
  returns the tiles pushed for top, right, bottom and left, in this order; for a tile in
  column \<open>N - 1\<close> the right neighbour is the tile of column 0 at the same row and level,
  and for a tile in column 0 the left neighbour is the tile of column \<open>N - 1\<close> at the same
  row and level. The arithmetic is that of doubles, with tile counts below \<open>2^53\<close>.
\<close>

theorem neighbors_wrap_horizontally:
  assumes "cache_ok fl g" and "tileAddress fl g t" and "levelAt g (z t) = Some l"
    and "numHorizontalTiles fl l = N" and "N < 2 ^ 53" and "numVerticalTiles fl l < 2 ^ 53"
  shows "(\<exists>g'. neighbors fl g t =
            Inr (neighborAt fl l t (0, 1) @ neighborAt fl l t (1, 0) @
                 neighborAt fl l t (0, - 1) @ neighborAt fl l t (- 1, 0), g'))
       \<and> (x t = of_int (N - 1) \<longrightarrow> neighborAt fl l t (1, 0) = [\<lparr>x = 0, y = y t, z = z t\<rparr>])
       \<and> (x t = 0 \<longrightarrow> neighborAt fl l t (- 1, 0) = [\<lparr>x = of_int (N - 1), y = y t, z = z t\<rparr>])"
proof -
  note ta = tileAddress_ints[OF assms(2,3)]
  note na = neighborAt_address[OF assms(4,5) refl assms(6) ta(1,2) ta(3)[unfolded assms(4)] ta(4,5,6)]
  have 1: "\<exists>g'. neighbors fl g t =
            Inr (neighborAt fl l t (0, 1) @ neighborAt fl l t (1, 0) @
                 neighborAt fl l t (0, - 1) @ neighborAt fl l t (- 1, 0), g')"
    using neighbors_result[OF assms(1,3)] by (auto simp: computeNeighbors_eq)
  have 2: "neighborAt fl l t (1, 0) = [\<lparr>x = 0, y = y t, z = z t\<rparr>]" if "x t = of_int (N - 1)"
  proof -
    from that ta(1) have "\<lfloor>x t\<rfloor> = N - 1" by simp
    with na(2) ta(4) show ?thesis by simp
  qed
  have 3: "neighborAt fl l t (- 1, 0) = [\<lparr>x = of_int (N - 1), y = y t, z = z t\<rparr>]" if "x t = 0"
  proof -
    from that have "\<lfloor>x t\<rfloor> = 0" by simp
    with na(4) ta(4) show ?thesis by simp
  qed
  from 1 2 3 show ?thesis by blast
qed

theorem neighbors_wrap_horizontally_witness:
  "cache_ok fl \<lparr>levelList = [\<lparr>width = 1536, height = 1024, tileWidth = 512, tileHeight = 512\<rparr>],
                 neighborsCache = []\<rparr>
   \<and> tileAddress fl \<lparr>levelList = [\<lparr>width = 1536, height = 1024, tileWidth = 512, tileHeight = 512\<rparr>],
                 neighborsCache = []\<rparr> \<lparr>x = 2, y = 0, z = 0\<rparr>
   \<and> numHorizontalTiles fl \<lparr>width = 1536, height = 1024, tileWidth = 512, tileHeight = 512\<rparr> = 3
   \<and> neighborAt fl \<lparr>width = 1536, height = 1024, tileWidth = 512, tileHeight = 512\<rparr>
        \<lparr>x = 2, y = 0, z = 0\<rparr> (1, 0) = [\<lparr>x = 0, y = 0, z = 0\<rparr>]"
proof -
  let ?l = "\<lparr>width = 1536, height = 1024, tileWidth = 512, tileHeight = 512\<rparr>"
  let ?g = "\<lparr>levelList = [?l], neighborsCache = []\<rparr>"
  let ?t = "\<lparr>x = 2, y = 0, z = 0\<rparr>"
  have fl3: "fl 3 = 3" "fl 2 = 2" using fl_of_int[of 3] fl_of_int[of 2] by simp_all
  have h1: "cache_ok fl ?g" by (simp add: cache_ok_def)
  have n: "numHorizontalTiles fl ?l = 3" "numVerticalTiles fl ?l = 2"
    by (simp_all add: numHorizontalTiles_def numVerticalTiles_def jdiv_def fl3)
  have h3: "levelAt ?g (z ?t) = Some ?l" by (simp add: levelAt_def)
  have h2: "tileAddress fl ?g ?t" by (simp add: tileAddress_def levelAt_def n)
  have b: "(3::int) < 2 ^ 53" "numVerticalTiles fl ?l < 2 ^ 53" by (simp_all add: n)
  from neighbors_wrap_horizontally[OF h1 h2 h3 n(1) b] h1 h2 n(1)
  show ?thesis by simp
qed

text \<open>
  C7. Vertical clamp by exclusion. For a tile address, every tile that \<^verbatim>\<open>neighbors()\<close>
  returns has its row within \<open>[0, tileRows - 1]\<close>, is a tile address, and has the level of
  the tile; the list has 2 to 4 elements; a tile at row 0 gets no bottom neighbour and a
  tile at row \<open>tileRows - 1\<close> no top neighbour.
\<close>

theorem neighbors_clamp_vertically:
  assumes "cache_ok fl g" and "tileAddress fl g t" and "levelAt g (z t) = Some l"
    and "numHorizontalTiles fl l < 2 ^ 53" and "numVerticalTiles fl l = M" and "M < 2 ^ 53"
  shows "\<exists>ns g'. neighbors fl g t = Inr (ns, g')
           \<and> ns = neighborAt fl l t (0, 1) @ neighborAt fl l t (1, 0) @
                  neighborAt fl l t (0, - 1) @ neighborAt fl l t (- 1, 0)
           \<and> 2 \<le> length ns \<and> length ns \<le> 4
           \<and> (\<forall>n \<in> set ns. z n = z t \<and> 0 \<le> y n \<and> y n \<le> of_int (M - 1) \<and> tileAddress fl g n)
           \<and> (y t = 0 \<longrightarrow> neighborAt fl l t (0, - 1) = [])
           \<and> (y t = of_int (M - 1) \<longrightarrow> neighborAt fl l t (0, 1) = [])"
proof -
  note ta = tileAddress_ints[OF assms(2,3)]
  note na = neighborAt_address[OF refl assms(4,5,6) ta(1,2,3) ta(4,5) ta(6)[unfolded assms(5)]]
  let ?ns = "neighborAt fl l t (0, 1) @ neighborAt fl l t (1, 0) @
             neighborAt fl l t (0, - 1) @ neighborAt fl l t (- 1, 0)"
  obtain g' where 1: "neighbors fl g t = Inr (?ns, g')"
    using neighbors_result[OF assms(1,3)] by (auto simp: computeNeighbors_eq)
  have 2: "2 \<le> length ?ns" "length ?ns \<le> 4"
    by (simp_all add: na)
  have 3: "\<forall>n \<in> set ?ns. z n = z t \<and> 0 \<le> y n \<and> y n \<le> of_int (M - 1)"
    using ta(5) ta(6)[unfolded assms(5)] by (auto simp: na split: if_splits)
  let ?i = "\<lfloor>x t\<rfloor>" and ?j = "\<lfloor>y t\<rfloor>" and ?N = "numHorizontalTiles fl l"
  have A: "tileAddress fl g \<lparr>x = of_int a, y = of_int b, z = z t\<rparr>"
    if "0 \<le> a" "a < ?N" "0 \<le> b" "b < M" for a b
    using that assms(3,5) by (simp add: tileAddress_def)
  have i: "0 \<le> ?i" "?i < ?N" and j: "0 \<le> ?j" "?j < M"
    using ta(2,3,5) ta(6)[unfolded assms(5)] by simp_all
  have top: "\<forall>n \<in> set (neighborAt fl l t (0, 1)). tileAddress fl g n"
  proof (cases "?j + 1 < M")
    case True
    with i j have "tileAddress fl g \<lparr>x = of_int ?i, y = of_int (?j + 1), z = z t\<rparr>"
      by (intro A; linarith)
    with True show ?thesis unfolding na(1) by simp
  next
    case False
    then show ?thesis unfolding na(1) by simp
  qed
  have bottom: "\<forall>n \<in> set (neighborAt fl l t (0, - 1)). tileAddress fl g n"
  proof (cases "0 < ?j")
    case True
    with i j have "tileAddress fl g \<lparr>x = of_int ?i, y = of_int (?j - 1), z = z t\<rparr>"
      by (intro A; linarith)
    with True show ?thesis unfolding na(3) by simp
  next
    case False
    then show ?thesis unfolding na(3) by simp
  qed
  have right: "\<forall>n \<in> set (neighborAt fl l t (1, 0)). tileAddress fl g n"
  proof (cases "?i = ?N - 1")
    case True
    from i j have "tileAddress fl g \<lparr>x = of_int 0, y = of_int ?j, z = z t\<rparr>"
      by (intro A; linarith)
    with True show ?thesis unfolding na(2) by simp
  next
    case False
    with i j have "tileAddress fl g \<lparr>x = of_int (?i + 1), y = of_int ?j, z = z t\<rparr>"
      by (intro A; linarith)
    with False show ?thesis unfolding na(2) by simp
  qed
  have left: "\<forall>n \<in> set (neighborAt fl l t (- 1, 0)). tileAddress fl g n"
  proof (cases "?i = 0")
    case True
    from i j have "tileAddress fl g \<lparr>x = of_int (?N - 1), y = of_int ?j, z = z t\<rparr>"
      by (intro A; linarith)
    with True show ?thesis unfolding na(4) by simp
  next
    case False
    with i j have "tileAddress fl g \<lparr>x = of_int (?i - 1), y = of_int ?j, z = z t\<rparr>"
      by (intro A; linarith)
    with False show ?thesis unfolding na(4) by simp
  qed
  have ta3: "\<forall>n \<in> set ?ns. tileAddress fl g n"
    using top right bottom left by auto
  have 4: "neighborAt fl l t (0, - 1) = []" if "y t = 0"
  proof -
    from that have "\<lfloor>y t\<rfloor> = 0" by simp
    with na(3) show ?thesis by simp
  qed
  have 5: "neighborAt fl l t (0, 1) = []" if "y t = of_int (M - 1)"
  proof -
    from that have "\<lfloor>y t\<rfloor> = M - 1" by simp
    with na(1) show ?thesis by simp
  qed
  from 1 2 3 ta3 4 5 show ?thesis by blast
qed

theorem neighbors_clamp_vertically_witness:
  "cache_ok fl \<lparr>levelList = [\<lparr>width = 1536, height = 1024, tileWidth = 512, tileHeight = 512\<rparr>],
                 neighborsCache = []\<rparr>
   \<and> tileAddress fl \<lparr>levelList = [\<lparr>width = 1536, height = 1024, tileWidth = 512, tileHeight = 512\<rparr>],
                 neighborsCache = []\<rparr> \<lparr>x = 2, y = 0, z = 0\<rparr>
   \<and> numVerticalTiles fl \<lparr>width = 1536, height = 1024, tileWidth = 512, tileHeight = 512\<rparr> = 2
   \<and> (\<exists>g'. neighbors fl \<lparr>levelList = [\<lparr>width = 1536, height = 1024, tileWidth = 512, tileHeight = 512\<rparr>],
                 neighborsCache = []\<rparr> \<lparr>x = 2, y = 0, z = 0\<rparr>
          = Inr ([\<lparr>x = 2, y = 1, z = 0\<rparr>, \<lparr>x = 0, y = 0, z = 0\<rparr>, \<lparr>x = 1, y = 0, z = 0\<rparr>], g'))"
proof -
  let ?l = "\<lparr>width = 1536, height = 1024, tileWidth = 512, tileHeight = 512\<rparr>"
  let ?g = "\<lparr>levelList = [?l], neighborsCache = []\<rparr>"
  let ?t = "\<lparr>x = 2, y = 0, z = 0\<rparr>"
  have fl3: "fl 3 = 3" "fl 2 = 2" using fl_of_int[of 3] fl_of_int[of 2] by simp_all
  have h1: "cache_ok fl ?g" by (simp add: cache_ok_def)
  have n: "numHorizontalTiles fl ?l = 3" "numVerticalTiles fl ?l = 2"
    by (simp_all add: numHorizontalTiles_def numVerticalTiles_def jdiv_def fl3)
  have h3: "levelAt ?g (z ?t) = Some ?l" by (simp add: levelAt_def)
  have h2: "tileAddress fl ?g ?t" by (simp add: tileAddress_def levelAt_def n)
  have b: "numHorizontalTiles fl ?l < 2 ^ 53" "(2::int) < 2 ^ 53" by (simp_all add: n)
  have na: "neighborAt fl ?l ?t (0, 1) = [\<lparr>x = 2, y = 1, z = 0\<rparr>]"
           "neighborAt fl ?l ?t (1, 0) = [\<lparr>x = 0, y = 0, z = 0\<rparr>]"
           "neighborAt fl ?l ?t (0, - 1) = []"
           "neighborAt fl ?l ?t (- 1, 0) = [\<lparr>x = 1, y = 0, z = 0\<rparr>]"
    using neighborAt_address[of ?l 3 2 ?t 2 0] n by simp_all
  from neighbors_clamp_vertically[OF h1 h2 h3 b(1) n(2) b(2)] h1 h2 n(2)
  show ?thesis by (auto simp: na)
qed

text \<open>
  C10. On a level with exactly one tile column, \<^verbatim>\<open>neighbors()\<close> lists the tile itself twice:
  the right and the left candidate both wrap back to column 0, and the top and bottom
  neighbours are other tiles.
\<close>

theorem neighbors_single_column:
  assumes "cache_ok fl g" and "tileAddress fl g t" and "levelAt g (z t) = Some l"
    and "numHorizontalTiles fl l = 1" and "numVerticalTiles fl l < 2 ^ 53"
  shows "\<exists>ns g'. neighbors fl g t = Inr (ns, g')
           \<and> ns = neighborAt fl l t (0, 1) @ neighborAt fl l t (1, 0) @
                  neighborAt fl l t (0, - 1) @ neighborAt fl l t (- 1, 0)
           \<and> neighborAt fl l t (1, 0) = [t]
           \<and> neighborAt fl l t (- 1, 0) = [t]
           \<and> count_list ns t = 2"
proof -
  note ta = tileAddress_ints[OF assms(2,3)]
  have one: "(1::int) < 2 ^ 53" by simp
  note na = neighborAt_address[OF assms(4) one refl assms(5) ta(1,2) ta(3)[unfolded assms(4)] ta(4,5,6)]
  from ta(2) ta(3)[unfolded assms(4)] have x0: "\<lfloor>x t\<rfloor> = 0" by linarith
  with ta(1) have xt: "x t = 0" by simp
  have t: "\<lparr>x = 0, y = of_int \<lfloor>y t\<rfloor>, z = z t\<rparr> = t"
    using xt ta(4) by simp
  let ?ns = "neighborAt fl l t (0, 1) @ neighborAt fl l t (1, 0) @
             neighborAt fl l t (0, - 1) @ neighborAt fl l t (- 1, 0)"
  obtain g' where 1: "neighbors fl g t = Inr (?ns, g')"
    using neighbors_result[OF assms(1,3)] by (auto simp: computeNeighbors_eq)
  have 2: "neighborAt fl l t (1, 0) = [t]" using na(2) x0 t by simp
  have 3: "neighborAt fl l t (- 1, 0) = [t]" using na(4) x0 t by simp
  have ne1: "\<lparr>x = of_int \<lfloor>x t\<rfloor>, y = of_int (\<lfloor>y t\<rfloor> + 1), z = z t\<rparr> \<noteq> t"
  proof
    assume "\<lparr>x = of_int \<lfloor>x t\<rfloor>, y = of_int (\<lfloor>y t\<rfloor> + 1), z = z t\<rparr> = t"
    then have "y \<lparr>x = of_int \<lfloor>x t\<rfloor>, y = of_int (\<lfloor>y t\<rfloor> + 1), z = z t\<rparr> = y t" by (rule arg_cong)
    then have "real_of_int (\<lfloor>y t\<rfloor> + 1) = real_of_int \<lfloor>y t\<rfloor>" using ta(4) by simp
    then have "\<lfloor>y t\<rfloor> + 1 = \<lfloor>y t\<rfloor>" by (simp only: of_int_eq_iff)
    then show False by simp
  qed
  have ne2: "\<lparr>x = of_int \<lfloor>x t\<rfloor>, y = of_int (\<lfloor>y t\<rfloor> - 1), z = z t\<rparr> \<noteq> t"
  proof
    assume "\<lparr>x = of_int \<lfloor>x t\<rfloor>, y = of_int (\<lfloor>y t\<rfloor> - 1), z = z t\<rparr> = t"
    then have "y \<lparr>x = of_int \<lfloor>x t\<rfloor>, y = of_int (\<lfloor>y t\<rfloor> - 1), z = z t\<rparr> = y t" by (rule arg_cong)
    then have "real_of_int (\<lfloor>y t\<rfloor> - 1) = real_of_int \<lfloor>y t\<rfloor>" using ta(4) by simp
    then have "\<lfloor>y t\<rfloor> - 1 = \<lfloor>y t\<rfloor>" by (simp only: of_int_eq_iff)
    then show False by simp
  qed
  have 4: "count_list ?ns t = 2"
    using ne1 ne2 by (simp add: 2 3 na(1) na(3) del: of_int_add of_int_diff)
  from 1 2 3 4 show ?thesis by blast
qed

theorem neighbors_single_column_witness:
  "cache_ok fl \<lparr>levelList = [\<lparr>width = 512, height = 1024, tileWidth = 512, tileHeight = 512\<rparr>],
                 neighborsCache = []\<rparr>
   \<and> tileAddress fl \<lparr>levelList = [\<lparr>width = 512, height = 1024, tileWidth = 512, tileHeight = 512\<rparr>],
                 neighborsCache = []\<rparr> \<lparr>x = 0, y = 0, z = 0\<rparr>
   \<and> numHorizontalTiles fl \<lparr>width = 512, height = 1024, tileWidth = 512, tileHeight = 512\<rparr> = 1
   \<and> (\<exists>g'. neighbors fl \<lparr>levelList = [\<lparr>width = 512, height = 1024, tileWidth = 512, tileHeight = 512\<rparr>],
                 neighborsCache = []\<rparr> \<lparr>x = 0, y = 0, z = 0\<rparr>
          = Inr ([\<lparr>x = 0, y = 1, z = 0\<rparr>, \<lparr>x = 0, y = 0, z = 0\<rparr>, \<lparr>x = 0, y = 0, z = 0\<rparr>], g'))"
proof -
  let ?l = "\<lparr>width = 512, height = 1024, tileWidth = 512, tileHeight = 512\<rparr>"
  let ?g = "\<lparr>levelList = [?l], neighborsCache = []\<rparr>"
  let ?t = "\<lparr>x = 0, y = 0, z = 0\<rparr>"
  have fl3: "fl 1 = 1" "fl 2 = 2" using fl_of_int[of 1] fl_of_int[of 2] by simp_all
  have h1: "cache_ok fl ?g" by (simp add: cache_ok_def)
  have n: "numHorizontalTiles fl ?l = 1" "numVerticalTiles fl ?l = 2"
    by (simp_all add: numHorizontalTiles_def numVerticalTiles_def jdiv_def fl3)
  have h3: "levelAt ?g (z ?t) = Some ?l" by (simp add: levelAt_def)
  have h2: "tileAddress fl ?g ?t" by (simp add: tileAddress_def levelAt_def n)
  have b: "numVerticalTiles fl ?l < 2 ^ 53" by (simp_all add: n)
  have na: "neighborAt fl ?l ?t (0, 1) = [\<lparr>x = 0, y = 1, z = 0\<rparr>]"
           "neighborAt fl ?l ?t (0, - 1) = []"
    using neighborAt_address[of ?l 1 2 ?t 0 0] n by simp_all
  from neighbors_single_column[OF h1 h2 h3 n(1) b] h1 h2 n(1)
  show ?thesis by (auto simp: na)
qed


section \<open>Empty viewport\<close>

text \<open>
  C2 as stated fails. With a viewport of width 0, \<^verbatim>\<open>visibleTiles\<close> returns normally, with
  the empty list: no error is raised.
\<close>

theorem visibleTiles_empty_viewport_returns:
  "visibleTiles fl (\<lambda>v t r. (0, r))
      \<lparr>levelList = [\<lparr>width = 512, height = 512, tileWidth = 512, tileHeight = 512\<rparr>],
       neighborsCache = []\<rparr>
      \<lparr>yaw = 0, pitch = 0, size_width = 0, size_height = 600\<rparr> (OwnLevel 0) None = Inr []"
  by (simp add: visibleTiles_def)

text \<open>
  C2, amended. When the viewport has width 0 or height 0, \<^verbatim>\<open>visibleTiles\<close> returns normally
  the list it was given (the empty list when it was given none), whatever the searcher:
  no tile is produced and nothing is raised.
\<close>

theorem visibleTiles_empty_viewport:
  "size_width v = 0 \<or> size_height v = 0 \<Longrightarrow>
     visibleTiles rnd search g v a result = Inr (case result of None \<Rightarrow> [] | Some r \<Rightarrow> r)"
  by (auto simp: visibleTiles_def)

theorem visibleTiles_empty_viewport_witness:
  "size_height \<lparr>yaw = 1, pitch = 0, size_width = 800, size_height = 0\<rparr> = 0
   \<and> visibleTiles fl (\<lambda>v t r. (1, t # r))
      \<lparr>levelList = [\<lparr>width = 512, height = 512, tileWidth = 512, tileHeight = 512\<rparr>],
       neighborsCache = []\<rparr>
      \<lparr>yaw = 1, pitch = 0, size_width = 800, size_height = 0\<rparr> (OwnLevel 0)
      (Some [\<lparr>x = 3, y = 1, z = 2\<rparr>]) = Inr [\<lparr>x = 3, y = 1, z = 2\<rparr>]"
  using visibleTiles_empty_viewport[of "\<lparr>yaw = 1, pitch = 0, size_width = 800, size_height = 0\<rparr>"
      fl "\<lambda>v t r. (1, t # r)"
      "\<lparr>levelList = [\<lparr>width = 512, height = 512, tileWidth = 512, tileHeight = 512\<rparr>],
       neighborsCache = []\<rparr>" "OwnLevel 0" "Some [\<lparr>x = 3, y = 1, z = 2\<rparr>]"]
  by simp


section \<open>Rounding of quotients\<close>

text \<open>
  For \<open>0 < q < 2^53\<close> the double \<open>fl q\<close> is \<open>q\<close> scaled to a significand of at least
  \<open>2^52\<close>, rounded to an integer and scaled back. Hence \<open>fl q\<close> is not below any integer
  that \<open>q\<close> is not below, and exceeds \<open>q\<close> by at most \<open>q / 2^53\<close>; the floor of the rounded
  quotient of two integers is their integer quotient.
\<close>

lemma rne_cases: "rne r = \<lfloor>r\<rfloor> \<and> r - of_int \<lfloor>r\<rfloor> \<le> 1/2 \<or> rne r = \<lfloor>r\<rfloor> + 1 \<and> 1/2 \<le> r - of_int \<lfloor>r\<rfloor>"
  by (simp add: rne_def Let_def)

lemma rne_bounds: "of_int (rne r) \<le> r + 1/2"
proof -
  have "of_int \<lfloor>r\<rfloor> \<le> r" by (rule of_int_floor_le)
  with rne_cases[of r] show ?thesis by (elim disjE conjE) (simp, linarith, simp)
qed

lemma rne_ge_int: "of_int k \<le> r \<Longrightarrow> k \<le> rne r"
proof -
  assume "of_int k \<le> r"
  then have "k \<le> \<lfloor>r\<rfloor>" by (simp add: le_floor_iff)
  moreover have "\<lfloor>r\<rfloor> \<le> rne r" by (simp add: rne_def Let_def)
  ultimately show ?thesis by simp
qed

lemma fl_scaled:
  assumes "0 < q" "q < 2 ^ 53"
  shows "\<exists>s::nat. fl q = of_int (rne (q * 2 ^ s)) / 2 ^ s \<and> 2 ^ 52 \<le> q * 2 ^ s"
proof (cases "1 \<le> q")
  case True
  let ?f = "\<lfloor>q\<rfloor>"
  have f: "0 < ?f" "?f < 2 ^ 53" using True assms by (simp_all add: floor_less_iff)
  have e: "ilog2 q = bitlen ?f - 1" using True by (simp add: ilog2_def)
  have b53: "bitlen ?f \<le> 53" using f by (simp add: bitlen_le_iff_power)
  have b1: "1 \<le> bitlen ?f" using f by (simp add: bitlen_ge_iff_power)
  have lo: "2 ^ nat (bitlen ?f - 1) \<le> ?f" using bitlen_bounds[OF f(1)] by simp
  then have "(2::real) ^ nat (bitlen ?f - 1) \<le> of_int ?f"
    by (metis of_int_le_iff of_int_numeral of_int_power)
  also have "\<dots> \<le> q" by simp
  finally have lo': "(2::real) ^ nat (bitlen ?f - 1) \<le> q" .
  let ?s = "nat (53 - bitlen ?f)"
  have "(2::real) ^ 52 = 2 ^ (nat (bitlen ?f - 1) + ?s)"
    using b53 b1 by (simp add: nat_add_distrib [symmetric])
  also have "\<dots> = 2 ^ nat (bitlen ?f - 1) * 2 ^ ?s" by (simp add: power_add)
  also have "\<dots> \<le> q * 2 ^ ?s" using lo' by simp
  finally have big: "2 ^ 52 \<le> q * 2 ^ ?s" .
  have "fl q = of_int (rne (q * 2 ^ ?s)) / 2 ^ ?s"
  proof (cases "bitlen ?f = 53")
    case True
    then show ?thesis using assms by (simp add: fl_def e Let_def)
  next
    case False
    with b53 have "bitlen ?f - 1 - 52 < 0" by simp
    moreover have "nat (- (bitlen ?f - 1 - 52)) = ?s" by simp
    ultimately show ?thesis using assms by (simp add: fl_def e Let_def)
  qed
  with big show ?thesis by blast
next
  case False
  let ?m = "\<lceil>1 / q\<rceil>"
  have q1: "q < 1" using False by simp
  then have "1 < 1 / q" using assms by simp
  then have m: "2 \<le> ?m" by (simp add: le_ceiling_iff) 
  let ?c = "bitlen (?m - 1)"
  have e: "ilog2 q = - ?c" using False by (simp add: ilog2_def)
  have c0: "0 \<le> ?c" by (rule bitlen_nonneg)
  have "?m - 1 < 2 ^ nat ?c" using bitlen_bounds[of "?m - 1"] m by simp
  then have "?m \<le> 2 ^ nat ?c" by simp
  then have "of_int ?m \<le> (2::real) ^ nat ?c"
    by (metis of_int_le_iff of_int_numeral of_int_power)
  moreover have "1 / q \<le> of_int ?m" by (rule le_of_int_ceiling)
  ultimately have "1 / q \<le> 2 ^ nat ?c" by linarith
  then have one: "1 \<le> q * 2 ^ nat ?c" using assms(1) by (simp add: field_simps)
  let ?s = "nat ?c + 52"
  have "(2::real) ^ 52 \<le> (q * 2 ^ nat ?c) * 2 ^ 52" using one by simp
  also have "\<dots> = q * 2 ^ ?s" by (simp add: power_add)
  finally have big: "2 ^ 52 \<le> q * 2 ^ ?s" .
  have "- ?c - 52 < 0" using c0 by simp
  moreover have "nat (- (- ?c - 52)) = ?s" using c0 by simp
  ultimately have "fl q = of_int (rne (q * 2 ^ ?s)) / 2 ^ ?s"
    using assms by (simp add: fl_def e Let_def)
  with big show ?thesis by blast
qed

lemma fl_upper:
  assumes "0 < q" "q < 2 ^ 53"
  shows "fl q \<le> q + q / 2 ^ 53"
proof -
  from fl_scaled[OF assms] obtain s :: nat where
    s: "fl q = of_int (rne (q * 2 ^ s)) / 2 ^ s" "2 ^ 52 \<le> q * 2 ^ s" by blast
  have "of_int (rne (q * 2 ^ s)) \<le> q * 2 ^ s + 1 / 2" by (rule rne_bounds)
  also have "1 / 2 \<le> (q * 2 ^ s) / 2 ^ 53" using s(2) by simp
  finally have "of_int (rne (q * 2 ^ s)) \<le> (q + q / 2 ^ 53) * 2 ^ s"
    by (simp add: algebra_simps)
  then have "of_int (rne (q * 2 ^ s)) / 2 ^ s \<le> q + q / 2 ^ 53"
    by (simp add: field_simps)
  with s(1) show ?thesis by simp
qed

lemma fl_lower_int:
  assumes "0 < q" "q < 2 ^ 53" "of_int k \<le> q"
  shows "of_int k \<le> fl q"
proof -
  from fl_scaled[OF assms(1,2)] obtain s :: nat where
    s: "fl q = of_int (rne (q * 2 ^ s)) / 2 ^ s" by blast
  have "of_int (k * 2 ^ s) \<le> q * 2 ^ s" using assms(3) by simp
  then have "k * 2 ^ s \<le> rne (q * 2 ^ s)" by (rule rne_ge_int)
  then have "real_of_int (k * 2 ^ s) \<le> of_int (rne (q * 2 ^ s))" by (simp only: of_int_le_iff)
  then have "of_int k \<le> of_int (rne (q * 2 ^ s)) / (2::real) ^ s"
    by (simp add: field_simps)
  with s show ?thesis by simp
qed

lemma fl_floor_quotient:
  assumes "0 \<le> n" "n < 2 ^ 53" "0 < k"
  shows "\<lfloor>fl (of_int n / of_int k)\<rfloor> = n div k"
proof (cases "n = 0")
  case True
  then show ?thesis by (simp add: fl_def)
next
  case False
  let ?q = "real_of_int n / real_of_int k"
  have n: "0 < n" using False assms by simp
  have q: "0 < ?q" using n assms by simp
  have "?q \<le> of_int n" using assms n by (simp add: field_simps mult_le_cancel_left1)
  also have "\<dots> < 2 ^ 53" using assms(2) by simp
  finally have q53: "?q < 2 ^ 53" .
  have "real_of_int \<lfloor>?q\<rfloor> \<le> ?q" by (rule of_int_floor_le)
  then have lo: "of_int (n div k) \<le> ?q" by (simp only: floor_divide_of_int_eq)
  have lo': "of_int (n div k) \<le> fl ?q" by (rule fl_lower_int[OF q q53 lo])
  have "n mod k < k" using assms(3) by simp
  moreover have "k * (n div k) + n mod k = n" by simp
  ultimately have "n < k * (n div k) + k" by linarith
  then have "n < k * (n div k + 1)" by (simp add: algebra_simps)
  then have "n + 1 \<le> k * (n div k + 1)" by simp
  then have "real_of_int (n + 1) \<le> real_of_int (k * (n div k + 1))" by (simp only: of_int_le_iff)
  then have up: "?q + 1 / of_int k \<le> of_int (n div k) + 1"
    using assms(3) by (simp add: field_simps)
  have "real_of_int n < 2 ^ 53" using assms(2) by simp
  then have "?q / 2 ^ 53 < 1 / of_int k"
    using assms(3) by (simp add: field_simps)
  with fl_upper[OF q q53] up have "fl ?q < of_int (n div k) + 1" by linarith
  with lo' show ?thesis by (simp add: floor_eq_iff)
qed


lemma rne_lower: "r - 1/2 \<le> of_int (rne r)"
  using rne_cases[of r]
proof (elim disjE conjE)
  assume a: "rne r = \<lfloor>r\<rfloor>" "r - real_of_int \<lfloor>r\<rfloor> \<le> 1 / 2"
  show ?thesis unfolding a(1) using a(2) by linarith
next
  assume a: "rne r = \<lfloor>r\<rfloor> + 1" "1 / 2 \<le> r - real_of_int \<lfloor>r\<rfloor>"
  have "r < real_of_int \<lfloor>r\<rfloor> + 1" by linarith
  then have "r - 1 / 2 \<le> real_of_int \<lfloor>r\<rfloor> + 1" by linarith
  then show ?thesis unfolding a(1) by simp
qed

lemma fl_lower_rel:
  assumes "0 < q" "q < 2 ^ 53"
  shows "q - q / 2 ^ 53 \<le> fl q"
proof -
  from fl_scaled[OF assms] obtain s :: nat where
    s: "fl q = of_int (rne (q * 2 ^ s)) / 2 ^ s" "2 ^ 52 \<le> q * 2 ^ s" by blast
  have "1 / 2 \<le> (q * 2 ^ s) / 2 ^ 53" using s(2) by simp
  moreover have "q * 2 ^ s - 1 / 2 \<le> of_int (rne (q * 2 ^ s))" by (rule rne_lower)
  ultimately have "(q - q / 2 ^ 53) * 2 ^ s \<le> of_int (rne (q * 2 ^ s))"
    by (simp add: algebra_simps)
  then have "q - q / 2 ^ 53 \<le> of_int (rne (q * 2 ^ s)) / 2 ^ s"
    by (simp add: field_simps)
  with s(1) show ?thesis by simp
qed

lemma fl_pos:
  assumes "0 < q" "q < 2 ^ 53"
  shows "0 < fl q"
proof -
  have "q / 2 ^ 53 < q" using assms(1) by simp
  with fl_lower_rel[OF assms] show ?thesis by linarith
qed


section \<open>Subdivision ratios\<close>




lemma fl_of_int_le:
  assumes "0 \<le> k" "k \<le> n" "n < 2 ^ 53"
  shows "fl (of_int k) = of_int k"
  using fl_of_int[of k] assms by simp






section \<open>Parent and children\<close>

lemma set_counters: "i \<in> set (counters b) \<longleftrightarrow> real i < b"
  by (auto simp: counters_def less_ceiling_iff nat_less_iff zless_nat_eq_int_zless)

lemma counters_int: "0 \<le> r \<Longrightarrow> counters (of_int r) = [0..<nat r]"
  by (simp add: counters_def)

lemma scale_exact:
  assumes "0 < r" "0 < N" "r * N < 2 ^ 53"
  shows "jdiv fl (of_int (r * N)) (of_int N) = of_int r"
proof -
  have "r * 1 \<le> r * N" using assms by (intro mult_left_mono) simp_all
  then have "fl (of_int r) = of_int r" using fl_of_int_le[of r "r * N"] assms by simp
  moreover have "real_of_int (r * N) / real_of_int N = of_int r" using assms by simp
  ultimately show ?thesis unfolding jdiv_def by (simp only:)
qed

lemma child_coord:
  assumes "0 < r" "0 \<le> X" "X < N" "r * N < 2 ^ 53" "i < nat r"
  shows "jadd fl (jmul fl (of_int r) (of_int X)) (of_nat i) = of_int (r * X + int i)"
    and "\<lfloor>jdiv fl (of_int (r * X + int i)) (of_int r)\<rfloor> = X"
proof -
  have X1: "X + 1 \<le> N" using assms by simp
  have "r * (X + 1) \<le> r * N" using assms(1) X1 by (intro mult_left_mono) simp_all
  then have b: "r * X + r < 2 ^ 53" using assms(4) by (simp add: algebra_simps)
  have i: "int i < r" using assms(5) by simp
  have rX: "0 \<le> r * X" using assms by simp
  have f1: "fl (of_int (r * X)) = of_int (r * X)"
    using fl_of_int_le[of "r * X" "r * X + r"] rX assms(1) b by simp
  have f2: "fl (of_int (r * X + int i)) = of_int (r * X + int i)"
    using fl_of_int_le[of "r * X + int i" "r * X + r"] rX i b by simp
  have "jmul fl (of_int r) (of_int X) = of_int (r * X)"
    unfolding jmul_def using f1 by simp
  then show "jadd fl (jmul fl (of_int r) (of_int X)) (of_nat i) = of_int (r * X + int i)"
    unfolding jadd_def using f2 by simp
  have "(r * X + int i) div r = X" using assms(1) i by simp
  moreover have "\<lfloor>fl (of_int (r * X + int i) / of_int r)\<rfloor> = (r * X + int i) div r"
    using rX i b assms(1) by (intro fl_floor_quotient) simp_all
  ultimately show "\<lfloor>jdiv fl (of_int (r * X + int i)) (of_int r)\<rfloor> = X"
    unfolding jdiv_def by simp
qed

lemma children_exact:
  assumes ta: "tileAddress fl g t"
    and lv: "levelAt g (z t) = Some level" "levelAt g (z t + 1) = Some childLevel"
    and rx: "numHorizontalTiles fl childLevel = rx * numHorizontalTiles fl level" "0 < rx"
            "numHorizontalTiles fl childLevel < 2 ^ 53"
    and ry: "numVerticalTiles fl childLevel = ry * numVerticalTiles fl level" "0 < ry"
            "numVerticalTiles fl childLevel < 2 ^ 53"
  shows "children fl g t None =
           Inr (Some (concat (map (\<lambda>i. map (\<lambda>j.
              \<lparr>x = of_int (rx * \<lfloor>x t\<rfloor> + int i), y = of_int (ry * \<lfloor>y t\<rfloor> + int j), z = z t + 1\<rparr>)
              [0..<nat ry]) [0..<nat rx])))"
proof -
  note a = tileAddress_ints[OF ta lv(1)]
  let ?N = "numHorizontalTiles fl level" and ?M = "numVerticalTiles fl level"
  have N: "0 < ?N" "0 < ?M" using a by linarith+
  have zz: "z t \<noteq> int (length (levelList g)) - 1"
    using lv(2) by (auto simp: levelAt_def split: if_splits)
  have sx: "jdiv fl (of_int (numHorizontalTiles fl childLevel)) (of_int ?N) = of_int rx"
    unfolding rx(1) using rx N by (intro scale_exact) simp_all
  have sy: "jdiv fl (of_int (numVerticalTiles fl childLevel)) (of_int ?M) = of_int ry"
    unfolding ry(1) using ry N by (intro scale_exact) simp_all
  have cx: "jadd fl (jmul fl (of_int rx) (x t)) (of_nat i) = of_int (rx * \<lfloor>x t\<rfloor> + int i)"
    if "i < nat rx" for i
    using child_coord(1)[of rx "\<lfloor>x t\<rfloor>" ?N i] a(1,2,3) rx that by simp
  have cy: "jadd fl (jmul fl (of_int ry) (y t)) (of_nat j) = of_int (ry * \<lfloor>y t\<rfloor> + int j)"
    if "j < nat ry" for j
    using child_coord(1)[of ry "\<lfloor>y t\<rfloor>" ?M j] a(4,5,6) ry that by simp
  have "concat (map (\<lambda>i. map (\<lambda>j.
            \<lparr>x = jadd fl (jmul fl (of_int rx) (x t)) (of_nat i),
             y = jadd fl (jmul fl (of_int ry) (y t)) (of_nat j),
             z = z t + 1\<rparr>) [0..<nat ry]) [0..<nat rx])
      = concat (map (\<lambda>i. map (\<lambda>j.
              \<lparr>x = of_int (rx * \<lfloor>x t\<rfloor> + int i), y = of_int (ry * \<lfloor>y t\<rfloor> + int j), z = z t + 1\<rparr>)
              [0..<nat ry]) [0..<nat rx])"
    by (intro arg_cong[where f = concat] map_cong refl) (simp add: cx cy)
  then show ?thesis
    using zz lv rx(2) ry(2) by (simp add: children_def Let_def sx sy counters_int)
qed

text \<open>
  C5 as stated fails. The two levels below satisfy the divisibility invariant and have 5
  and 7 tile columns. The children of the tile in column 3 of the first level are at
  columns \<open>fl (fl (7/5) * 3)\<close> and that plus one; the parent of the first of them is the
  tile in column 2: in doubles 1.4 * 3 = 4.199999999999999 and
  4.199999999999999 / 1.4 = 2.9999999999999996.
\<close>

theorem parent_of_child_fails:
  "hierarchyInvariant [\<lparr>width = 2560, height = 512, tileWidth = 512, tileHeight = 512\<rparr>,
                    \<lparr>width = 10240, height = 512, tileWidth = 1536, tileHeight = 512\<rparr>]
   \<and> tileAddress fl \<lparr>levelList = [\<lparr>width = 2560, height = 512, tileWidth = 512, tileHeight = 512\<rparr>,
                    \<lparr>width = 10240, height = 512, tileWidth = 1536, tileHeight = 512\<rparr>],
       neighborsCache = []\<rparr> \<lparr>x = 3, y = 0, z = 0\<rparr>
   \<and> children fl \<lparr>levelList = [\<lparr>width = 2560, height = 512, tileWidth = 512, tileHeight = 512\<rparr>,
                    \<lparr>width = 10240, height = 512, tileWidth = 1536, tileHeight = 512\<rparr>],
       neighborsCache = []\<rparr> \<lparr>x = 3, y = 0, z = 0\<rparr> None
      = Inr (Some [\<lparr>x = 4728779608739020 / 2 ^ 50, y = 0, z = 1\<rparr>,
                   \<lparr>x = 5854679515581644 / 2 ^ 50, y = 0, z = 1\<rparr>])
   \<and> parent fl \<lparr>levelList = [\<lparr>width = 2560, height = 512, tileWidth = 512, tileHeight = 512\<rparr>,
                    \<lparr>width = 10240, height = 512, tileWidth = 1536, tileHeight = 512\<rparr>],
       neighborsCache = []\<rparr> \<lparr>x = 4728779608739020 / 2 ^ 50, y = 0, z = 1\<rparr>
      = Inr (Some \<lparr>x = 2, y = 0, z = 0\<rparr>)"
  by code_simp

text \<open>
  C5, amended. For a tile address \<open>t\<close> below the finest level, when the numbers of tile
  columns and of tile rows of the next level are positive integer multiples of those of
  the tile's level (and below \<open>2^53\<close>), \<^verbatim>\<open>children(t)\<close> is a non-empty list and \<^verbatim>\<open>parent(c)\<close>
  is \<open>t\<close> (same column, row and level) for each of its elements \<open>c\<close>.
\<close>

theorem parent_of_child:
  assumes "tileAddress fl g t"
    and "levelAt g (z t) = Some level" and "levelAt g (z t + 1) = Some childLevel"
    and "numHorizontalTiles fl childLevel = rx * numHorizontalTiles fl level" and "0 < rx"
    and "numHorizontalTiles fl childLevel < 2 ^ 53"
    and "numVerticalTiles fl childLevel = ry * numVerticalTiles fl level" and "0 < ry"
    and "numVerticalTiles fl childLevel < 2 ^ 53"
  shows "\<exists>cs. children fl g t None = Inr (Some cs) \<and> cs \<noteq> []
            \<and> (\<forall>c \<in> set cs. parent fl g c = Inr (Some t))"
proof -
  note a = tileAddress_ints[OF assms(1,2)]
  let ?N = "numHorizontalTiles fl level" and ?M = "numVerticalTiles fl level"
  let ?cs = "concat (map (\<lambda>i. map (\<lambda>j.
              \<lparr>x = of_int (rx * \<lfloor>x t\<rfloor> + int i), y = of_int (ry * \<lfloor>y t\<rfloor> + int j), z = z t + 1\<rparr>)
              [0..<nat ry]) [0..<nat rx])"
  have N: "0 < ?N" "0 < ?M" using a by linarith+
  have ch: "children fl g t None = Inr (Some ?cs)" using assms by (rule children_exact)
  have z0: "0 \<le> z t" using assms(2) by (auto simp: levelAt_def split: if_splits)
  have sx: "jdiv fl (of_int (numHorizontalTiles fl childLevel)) (of_int ?N) = of_int rx"
    unfolding assms(4) using assms N by (intro scale_exact) simp_all
  have sy: "jdiv fl (of_int (numVerticalTiles fl childLevel)) (of_int ?M) = of_int ry"
    unfolding assms(7) using assms N by (intro scale_exact) simp_all
  have t: "\<lparr>x = of_int \<lfloor>x t\<rfloor>, y = of_int \<lfloor>y t\<rfloor>, z = z t\<rparr> = t"
    using a(1,4) by simp
  have par: "parent fl g c = Inr (Some t)" if "c \<in> set ?cs" for c
  proof -
    from that obtain i j where ij: "i < nat rx" "j < nat ry"
      and c: "c = \<lparr>x = of_int (rx * \<lfloor>x t\<rfloor> + int i), y = of_int (ry * \<lfloor>y t\<rfloor> + int j), z = z t + 1\<rparr>"
      by auto
    have px: "\<lfloor>jdiv fl (of_int (rx * \<lfloor>x t\<rfloor> + int i)) (of_int rx)\<rfloor> = \<lfloor>x t\<rfloor>"
      using child_coord(2)[of rx "\<lfloor>x t\<rfloor>" ?N i] a(2,3) assms(4,5,6) ij by simp
    have py: "\<lfloor>jdiv fl (of_int (ry * \<lfloor>y t\<rfloor> + int j)) (of_int ry)\<rfloor> = \<lfloor>y t\<rfloor>"
      using child_coord(2)[of ry "\<lfloor>y t\<rfloor>" ?M j] a(5,6) assms(7,8,9) ij by simp
    show ?thesis
      using z0 assms(2,3) t by (simp add: parent_def c sx sy px py del: of_int_add of_int_mult)
  qed
  have "?cs \<noteq> []"
    using assms(5,8) by (auto simp del: of_int_add of_int_mult intro: exI[of _ 0])
  with ch par show ?thesis by blast
qed

theorem parent_of_child_witness:
  "tileAddress fl \<lparr>levelList = [\<lparr>width = 512, height = 512, tileWidth = 256, tileHeight = 256\<rparr>,
                                \<lparr>width = 1536, height = 1536, tileWidth = 256, tileHeight = 256\<rparr>],
                  neighborsCache = []\<rparr> \<lparr>x = 1, y = 0, z = 0\<rparr>
   \<and> numHorizontalTiles fl \<lparr>width = 1536, height = 1536, tileWidth = 256, tileHeight = 256\<rparr>
       = 3 * numHorizontalTiles fl \<lparr>width = 512, height = 512, tileWidth = 256, tileHeight = 256\<rparr>
   \<and> numVerticalTiles fl \<lparr>width = 1536, height = 1536, tileWidth = 256, tileHeight = 256\<rparr>
       = 3 * numVerticalTiles fl \<lparr>width = 512, height = 512, tileWidth = 256, tileHeight = 256\<rparr>
   \<and> children fl \<lparr>levelList = [\<lparr>width = 512, height = 512, tileWidth = 256, tileHeight = 256\<rparr>,
                                \<lparr>width = 1536, height = 1536, tileWidth = 256, tileHeight = 256\<rparr>],
                  neighborsCache = []\<rparr> \<lparr>x = 1, y = 0, z = 0\<rparr> None
       = Inr (Some [\<lparr>x = 3, y = 0, z = 1\<rparr>, \<lparr>x = 3, y = 1, z = 1\<rparr>, \<lparr>x = 3, y = 2, z = 1\<rparr>,
                    \<lparr>x = 4, y = 0, z = 1\<rparr>, \<lparr>x = 4, y = 1, z = 1\<rparr>, \<lparr>x = 4, y = 2, z = 1\<rparr>,
                    \<lparr>x = 5, y = 0, z = 1\<rparr>, \<lparr>x = 5, y = 1, z = 1\<rparr>, \<lparr>x = 5, y = 2, z = 1\<rparr>])
   \<and> parent fl \<lparr>levelList = [\<lparr>width = 512, height = 512, tileWidth = 256, tileHeight = 256\<rparr>,
                                \<lparr>width = 1536, height = 1536, tileWidth = 256, tileHeight = 256\<rparr>],
                  neighborsCache = []\<rparr> \<lparr>x = 4, y = 2, z = 1\<rparr>
       = Inr (Some \<lparr>x = 1, y = 0, z = 0\<rparr>)"
proof -
  let ?p = "\<lparr>width = 512, height = 512, tileWidth = 256, tileHeight = 256\<rparr>"
  let ?l = "\<lparr>width = 1536, height = 1536, tileWidth = 256, tileHeight = 256\<rparr>"
  let ?g = "\<lparr>levelList = [?p, ?l], neighborsCache = []\<rparr>"
  let ?t = "\<lparr>x = 1, y = 0, z = 0\<rparr>"
  have f: "fl 2 = 2" "fl 6 = 6" using fl_of_int[of 2] fl_of_int[of 6] by simp_all
  have n: "numHorizontalTiles fl ?p = 2" "numVerticalTiles fl ?p = 2"
          "numHorizontalTiles fl ?l = 6" "numVerticalTiles fl ?l = 6"
    by (simp_all add: numHorizontalTiles_def numVerticalTiles_def jdiv_def f)
  have h1: "tileAddress fl ?g ?t" by (simp add: tileAddress_def levelAt_def n)
  have h2: "levelAt ?g (z ?t) = Some ?p" by (simp add: levelAt_def)
  have h3: "levelAt ?g (z ?t + 1) = Some ?l" by (simp add: levelAt_def)
  have h4: "numHorizontalTiles fl ?l = 3 * numHorizontalTiles fl ?p" by (simp add: n)
  have h5: "numVerticalTiles fl ?l = 3 * numVerticalTiles fl ?p" by (simp add: n)
  have b: "numHorizontalTiles fl ?l < 2 ^ 53" "numVerticalTiles fl ?l < 2 ^ 53" by (simp_all add: n)
  have ev: "children fl ?g ?t None
       = Inr (Some [\<lparr>x = 3, y = 0, z = 1\<rparr>, \<lparr>x = 3, y = 1, z = 1\<rparr>, \<lparr>x = 3, y = 2, z = 1\<rparr>,
                    \<lparr>x = 4, y = 0, z = 1\<rparr>, \<lparr>x = 4, y = 1, z = 1\<rparr>, \<lparr>x = 4, y = 2, z = 1\<rparr>,
                    \<lparr>x = 5, y = 0, z = 1\<rparr>, \<lparr>x = 5, y = 1, z = 1\<rparr>, \<lparr>x = 5, y = 2, z = 1\<rparr>])"
    by code_simp
  from parent_of_child[OF h1 h2 h3 h4 _ b(1) h5 _ b(2)]
  obtain cs where cs: "children fl ?g ?t None = Inr (Some cs)"
    "\<forall>c \<in> set cs. parent fl ?g c = Inr (Some ?t)" by auto
  from cs(1) ev have "cs = [\<lparr>x = 3, y = 0, z = 1\<rparr>, \<lparr>x = 3, y = 1, z = 1\<rparr>, \<lparr>x = 3, y = 2, z = 1\<rparr>,
                    \<lparr>x = 4, y = 0, z = 1\<rparr>, \<lparr>x = 4, y = 1, z = 1\<rparr>, \<lparr>x = 4, y = 2, z = 1\<rparr>,
                    \<lparr>x = 5, y = 0, z = 1\<rparr>, \<lparr>x = 5, y = 1, z = 1\<rparr>, \<lparr>x = 5, y = 2, z = 1\<rparr>]" by simp
  then have "\<lparr>x = 4, y = 2, z = 1\<rparr> \<in> set cs" by simp
  with cs(2) have "parent fl ?g \<lparr>x = 4, y = 2, z = 1\<rparr> = Inr (Some ?t)" by blast
  with h1 h4 h5 ev show ?thesis by (intro conjI)
qed


section \<open>Sphere projection and closest tile\<close>

lemma exact_ops [simp]:
  "jadd exact a b = a + b" "jsub exact a b = a - b" "jmul exact a b = a * b" "jdiv exact a b = a / b"
  "Math_PI exact = pi" "Math_sin exact a = sin a" "Math_cos exact a = cos a"
  by (simp_all add: jadd_def jsub_def jmul_def jdiv_def Math_PI_def Math_sin_def Math_cos_def exact_def)

lemma numTiles_exact_pos:
  assumes "positiveLevel l"
  shows "0 < numHorizontalTiles exact l" "0 < numVerticalTiles exact l"
  using assms by (simp_all add: numHorizontalTiles_def numVerticalTiles_def positiveLevel_def)

lemma fround_pos:
  assumes "0 < q" "q < 2"
  shows "0 < fround q"
proof (cases "1 \<le> q")
  case True
  then have f: "\<lfloor>q\<rfloor> = 1" using assms by linarith
  have b1: "bitlen 1 = 1" by code_simp
  have e: "ilog2 q = 0" using True by (simp add: ilog2_def f b1)
  have "1 \<le> q * 2 ^ 23" using True by simp
  then have "1 \<le> rne (q * 2 ^ 23)" using rne_ge_int[of 1 "q * 2 ^ 23"] by simp
  then have "0 < real_of_int (rne (q * 2 ^ 23))" by simp
  then show ?thesis using assms by (simp add: fround_def e Let_def)
next
  case False
  let ?m = "\<lceil>1 / q\<rceil>"
  have "1 < 1 / q" using False assms by simp
  then have m: "2 \<le> ?m" by (simp add: le_ceiling_iff)
  let ?c = "bitlen (?m - 1)"
  have e: "ilog2 q = - ?c" using False by (simp add: ilog2_def)
  have c0: "0 \<le> ?c" by (rule bitlen_nonneg)
  have "?m - 1 < 2 ^ nat ?c" using bitlen_bounds[of "?m - 1"] m by simp
  then have "?m \<le> 2 ^ nat ?c" by simp
  then have "real_of_int ?m \<le> 2 ^ nat ?c"
    by (metis of_int_le_iff of_int_numeral of_int_power)
  moreover have "1 / q \<le> of_int ?m" by (rule le_of_int_ceiling)
  ultimately have "1 / q \<le> 2 ^ nat ?c" by linarith
  then have one: "1 \<le> q * 2 ^ nat ?c" using assms(1) by (simp add: field_simps)
  let ?s = "nat ?c + 23"
  have "(1::real) * 1 \<le> (q * 2 ^ nat ?c) * 2 ^ 23"
    using one by (intro mult_mono) simp_all
  then have "(1::real) \<le> (q * 2 ^ nat ?c) * 2 ^ 23" by simp
  also have "\<dots> = q * 2 ^ ?s" by (simp add: power_add)
  finally have "of_int 1 \<le> q * 2 ^ ?s" by simp
  then have "1 \<le> rne (q * 2 ^ ?s)" by (rule rne_ge_int)
  then have pos: "0 < real_of_int (rne (q * 2 ^ ?s))" by simp
  have "- ?c - 23 < 0" using c0 by simp
  moreover have "nat (- (- ?c - 23)) = ?s" using c0 by simp
  ultimately have "fround q = of_int (rne (q * 2 ^ ?s)) / 2 ^ ?s"
    using assms by (simp add: fround_def e Let_def)
  with pos show ?thesis by simp
qed

lemma fround_consts: "fround 0 = 0" "fround 1 = 1"
  by code_simp+

lemma fl_consts: "fl 0 = 0" "fl 1 = 1"
  using fl_of_int[of 0] fl_of_int[of 1] by simp_all

lemma Math_PI_bounds: "2 \<le> Math_PI fl" "Math_PI fl \<le> 5"
proof -
  have p: "0 < pi" "pi < 2 ^ 53" using pi_less_4 by simp_all
  have "of_int 2 \<le> pi" using pi_ge_two by simp
  then have "of_int 2 \<le> fl pi" by (rule fl_lower_int[OF p])
  then show "2 \<le> Math_PI fl" by (simp add: Math_PI_def)
  have "pi / 2 ^ 53 \<le> 1" using pi_less_4 by simp
  with fl_upper[OF p] pi_less_4 show "Math_PI fl \<le> 5" by (simp add: Math_PI_def)
qed

lemma far_pitch_below_zero:
  fixes P :: real
  assumes P: "2 \<le> P" "P \<le> 5"
  defines "d \<equiv> 3602879701896396 / 2 ^ 55" and "s \<equiv> 3602879701896397 / 2 ^ 55"
  shows "fl (fl (d * P) - fl (s * P)) < 0" and "- 2 < fl (fl (d * P) - fl (s * P))"
proof -
  have dP: "0 < d * P" "d * P < 2 ^ 53" and sP: "0 < s * P" "s * P < 2 ^ 53"
    using P by (simp_all add: d_def s_def)
  have num: "d + d / 2 ^ 53 < s - s / 2 ^ 53" by (simp add: d_def s_def)
  have "(d + d / 2 ^ 53) * P < (s - s / 2 ^ 53) * P"
    using num P(1) by (intro mult_strict_right_mono) simp_all
  then have "d * P + d * P / 2 ^ 53 < s * P - s * P / 2 ^ 53"
    by (simp add: algebra_simps)
  with fl_upper[OF dP] fl_lower_rel[OF sP] have neg: "fl (d * P) - fl (s * P) < 0" by linarith
  have "s * P + s * P / 2 ^ 53 < 1" using P by (simp add: s_def)
  with fl_upper[OF sP] have "fl (s * P) < 1" by linarith
  moreover have "0 < fl (d * P)" by (rule fl_pos[OF dP])
  ultimately have lo: "- 1 < fl (d * P) - fl (s * P)" by linarith
  let ?u = "fl (s * P) - fl (d * P)"
  have u: "0 < ?u" "?u < 2 ^ 53" using neg lo by simp_all
  have "fl (fl (d * P) - fl (s * P)) = - fl ?u" using fl_neg[of ?u] by simp
  moreover have "0 < fl ?u" by (rule fl_pos[OF u])
  moreover have "fl ?u \<le> ?u + ?u / 2 ^ 53" by (rule fl_upper[OF u])
  moreover have "?u + ?u / 2 ^ 53 < 2"
  proof -
    have "?u < 1" using lo by linarith
    moreover have "?u / 2 ^ 53 < 1" using u(2) by simp
    ultimately show ?thesis by linarith
  qed
  ultimately show "fl (fl (d * P) - fl (s * P)) < 0" and "- 2 < fl (fl (d * P) - fl (s * P))"
    by linarith+
qed

lemma stored_sine_positive:
  assumes "p < 0" "- 2 < p"
  shows "0 < fround (- Math_sin fl p)"
proof -
  let ?u = "- p"
  have u: "0 < ?u" "?u < pi" using assms pi_ge_two by simp_all
  have su: "0 < sin ?u" using u by (rule sin_gt_zero)
  have su1: "sin ?u \<le> 1" by (rule sin_le_one)
  have "(1::real) < 2 ^ 53" by simp
  with su1 have su53: "sin ?u < 2 ^ 53" by (rule le_less_trans)
  have "- Math_sin fl p = fl (sin ?u)"
    using fl_neg[of "sin ?u"] by (simp add: Math_sin_def)
  moreover have "0 < fl (sin ?u)" by (rule fl_pos[OF su su53])
  moreover have "fl (sin ?u) < 2"
  proof -
    have "sin ?u / 2 ^ 53 < 1" using su53 by simp
    with fl_upper[OF su su53] su1 show ?thesis by linarith
  qed
  ultimately show ?thesis by (simp add: fround_pos)
qed

lemma makeVertex_exact:
  "makeVertex exact exact a b = (sin a * cos b, - sin b, cos a * cos b)"
  by (simp add: makeVertex_def exact_def)

lemma makeVertex_origin: "makeVertex fl fround 0 0 = (0, 0, 1)"
  by (simp add: makeVertex_def Math_sin_def Math_cos_def jmul_def fl_consts fround_consts)

text \<open>
  C9 as stated fails. On a level of 20 by 10 tiles the tile of row 4 ends on the equator:
  \<open>minY + scaleY - 1/2\<close> is 0, over the reals and in doubles (0.4 + 0.1 = 0.5), so the
  claim's far pitch is 0 and its first vector is \<open>(0, 0, 1)\<close>. The code computes the far
  pitch as \<open>bottom - scaleY * \<pi>\<close> with \<open>bottom = -(0.4 - 0.5) * \<pi>\<close>; in doubles
  \<open>0.5 - 0.4 = 0.09999999999999998\<close> is below \<open>0.1\<close>, the difference is
  \<open>-5.551115123125783e-17\<close>, and the second component of the first vector is its negated
  sine, which is positive. The vectors that \<^verbatim>\<open>vertices()\<close> returns are not the claim's,
  whether the claim's formula is evaluated in doubles or over the reals.
\<close>

theorem vertices_far_edge_differs:
  "vertices fl fround
       \<lparr>levelList = [\<lparr>width = 10240, height = 5120, tileWidth = 512, tileHeight = 512\<rparr>],
        neighborsCache = []\<rparr> \<lparr>x = 0, y = 4, z = 0\<rparr>
     \<noteq> Inr (verticesSpec fl fround
              \<lparr>width = 10240, height = 5120, tileWidth = 512, tileHeight = 512\<rparr> \<lparr>x = 0, y = 4, z = 0\<rparr>)
   \<and> vertices fl fround
       \<lparr>levelList = [\<lparr>width = 10240, height = 5120, tileWidth = 512, tileHeight = 512\<rparr>],
        neighborsCache = []\<rparr> \<lparr>x = 0, y = 4, z = 0\<rparr>
     \<noteq> Inr (verticesSpec exact exact
              \<lparr>width = 10240, height = 5120, tileWidth = 512, tileHeight = 512\<rparr> \<lparr>x = 0, y = 4, z = 0\<rparr>)
   \<and> hd (verticesSpec fl fround
              \<lparr>width = 10240, height = 5120, tileWidth = 512, tileHeight = 512\<rparr> \<lparr>x = 0, y = 4, z = 0\<rparr>)
       = (0, 0, 1)
   \<and> hd (verticesSpec exact exact
              \<lparr>width = 10240, height = 5120, tileWidth = 512, tileHeight = 512\<rparr> \<lparr>x = 0, y = 4, z = 0\<rparr>)
       = (0, 0, 1)"
proof -
  let ?l = "\<lparr>width = 10240, height = 5120, tileWidth = 512, tileHeight = 512\<rparr>"
  let ?g = "\<lparr>levelList = [?l], neighborsCache = []\<rparr>"
  let ?t = "\<lparr>x = 0, y = 4, z = 0\<rparr>"
  let ?P = "Math_PI fl"
  have lv: "levelAt ?g (z ?t) = Some ?l" by (simp add: levelAt_def)
  have mx: "minX fl ?l ?t = 0" by code_simp
  have my: "jsub fl (minY fl ?l ?t) (1/2) = - (3602879701896396 / 2 ^ 55)" by code_simp
  have sy: "scaleY fl ?l ?t = 3602879701896397 / 2 ^ 55" by code_simp
  have far: "jsub fl (jadd fl (minY fl ?l ?t) (scaleY fl ?l ?t)) (1/2) = 0" by code_simp
  have ex: "minX exact ?l ?t = 0" "minY exact ?l ?t = 2/5" "scaleY exact ?l ?t = 1/10"
    by (simp_all add: minX_def minY_def scaleY_def tile_height_def numVerticalTiles_def
        numHorizontalTiles_def util_mod_def jmul_def jdiv_def jsub_def exact_def)
  define top where "top = fl (fl (3602879701896396 / 2 ^ 55 * ?P) - fl (3602879701896397 / 2 ^ 55 * ?P))"
  have top: "top < 0" "- 2 < top"
    unfolding top_def using far_pitch_below_zero[OF Math_PI_bounds] by simp_all
  have left: "jmul fl (jmul fl (- minX fl ?l ?t) ?P) 2 = 0"
    by (simp add: mx jmul_def fl_consts)
  have topc: "jsub fl (jmul fl (- jsub fl (minY fl ?l ?t) (1/2)) ?P) (jmul fl (scaleY fl ?l ?t) ?P) = top"
    unfolding my sy by (simp add: jmul_def jsub_def top_def)
  have "\<exists>vs. vertices fl fround ?g ?t = Inr (makeVertex fl fround 0 top # vs)"
    using lv by (simp add: vertices_def Let_def left topc)
  then obtain vs0 where code: "vertices fl fround ?g ?t = Inr (makeVertex fl fround 0 top # vs0)"
    by blast
  have pos: "0 < fst (snd (makeVertex fl fround 0 top))"
    using stored_sine_positive[OF top] by (simp add: makeVertex_def)
  have s1: "hd (verticesSpec fl fround ?l ?t) = (0, 0, 1)"
    by (simp add: verticesSpec_def footprintAngles_def Let_def mx far jmul_def fl_consts
        makeVertex_origin)
  have s2: "hd (verticesSpec exact exact ?l ?t) = (0, 0, 1)"
    by (simp add: verticesSpec_def footprintAngles_def Let_def makeVertex_exact ex
        jmul_def jsub_def jadd_def exact_def Math_PI_def)
  have n1: "verticesSpec fl fround ?l ?t \<noteq> []" "verticesSpec exact exact ?l ?t \<noteq> []"
    by (simp_all add: verticesSpec_def footprintAngles_def Let_def)
  have d: "makeVertex fl fround 0 top # vs0 \<noteq> vs" if "vs \<noteq> []" "hd vs = (0, 0, 1)" for vs
  proof
    assume "makeVertex fl fround 0 top # vs0 = vs"
    then have "hd vs = makeVertex fl fround 0 top" by auto
    with that(2) pos show False by simp
  qed
  from d[OF n1(1) s1] d[OF n1(2) s2] s1 s2 show ?thesis
    unfolding code by simp
qed

text \<open>
  C9, amended. \<^verbatim>\<open>vertices()\<close> returns four vectors, for the corners left/top, right/top,
  right/bottom and left/bottom, where \<open>left = -minX * \<pi> * 2\<close>,
  \<open>right = left - scaleX * \<pi> * 2\<close>, \<open>bottom = -(minY - 1/2) * \<pi>\<close> and
  \<open>top = bottom - scaleY * \<pi>\<close>, each operation rounded to a double; a corner
  \<open>(yaw, pitch)\<close> is mapped to \<open>(sin yaw * cos pitch, - sin pitch, cos yaw * cos pitch)\<close>
  in doubles, each component then rounded to single precision, the element type of the
  vectors that the call allocates. Over the reals these are the vectors of the claim's
  angles \<open>-minX * 2\<pi>\<close>, \<open>-(minX + scaleX) * 2\<pi>\<close>, \<open>-(minY - 1/2) * \<pi>\<close> and
  \<open>-(minY + scaleY - 1/2) * \<pi>\<close>. The corner of yaw 0 and pitch 0 maps to \<open>(0, 0, 1)\<close>.
\<close>

theorem vertices_projection:
  assumes "levelAt g (z t) = Some l"
  shows "vertices fl fround g t =
           (let left = jmul fl (jmul fl (- minX fl l t) (Math_PI fl)) 2;
                right = jsub fl left (jmul fl (jmul fl (scaleX fl l t) (Math_PI fl)) 2);
                bottom = jmul fl (- jsub fl (minY fl l t) (1/2)) (Math_PI fl);
                top = jsub fl bottom (jmul fl (scaleY fl l t) (Math_PI fl))
            in Inr (map (\<lambda>(yaw, pitch).
                      (fround (jmul fl (Math_sin fl yaw) (Math_cos fl pitch)),
                       fround (- Math_sin fl pitch),
                       fround (jmul fl (Math_cos fl yaw) (Math_cos fl pitch))))
                    [(left, top), (right, top), (right, bottom), (left, bottom)]))
       \<and> vertices exact exact g t = Inr (verticesSpec exact exact l t)
       \<and> verticesSpec exact exact l t =
           map (\<lambda>(yaw, pitch). (sin yaw * cos pitch, - sin pitch, cos yaw * cos pitch))
             [(- minX exact l t * (2 * pi), - (minY exact l t + scaleY exact l t - 1/2) * pi),
              (- (minX exact l t + scaleX exact l t) * (2 * pi), - (minY exact l t + scaleY exact l t - 1/2) * pi),
              (- (minX exact l t + scaleX exact l t) * (2 * pi), - (minY exact l t - 1/2) * pi),
              (- minX exact l t * (2 * pi), - (minY exact l t - 1/2) * pi)]
       \<and> makeVertex fl fround 0 0 = (0, 0, 1)"
proof -
  have 1: "vertices fl fround g t =
           (let left = jmul fl (jmul fl (- minX fl l t) (Math_PI fl)) 2;
                right = jsub fl left (jmul fl (jmul fl (scaleX fl l t) (Math_PI fl)) 2);
                bottom = jmul fl (- jsub fl (minY fl l t) (1/2)) (Math_PI fl);
                top = jsub fl bottom (jmul fl (scaleY fl l t) (Math_PI fl))
            in Inr (map (\<lambda>(yaw, pitch).
                      (fround (jmul fl (Math_sin fl yaw) (Math_cos fl pitch)),
                       fround (- Math_sin fl pitch),
                       fround (jmul fl (Math_cos fl yaw) (Math_cos fl pitch))))
                    [(left, top), (right, top), (right, bottom), (left, bottom)]))"
    using assms unfolding vertices_def Let_def makeVertex_def
    by (simp only: option.case list.map prod.case)
  have 3: "verticesSpec exact exact l t =
           map (\<lambda>(yaw, pitch). (sin yaw * cos pitch, - sin pitch, cos yaw * cos pitch))
             [(- minX exact l t * (2 * pi), - (minY exact l t + scaleY exact l t - 1/2) * pi),
              (- (minX exact l t + scaleX exact l t) * (2 * pi), - (minY exact l t + scaleY exact l t - 1/2) * pi),
              (- (minX exact l t + scaleX exact l t) * (2 * pi), - (minY exact l t - 1/2) * pi),
              (- minX exact l t * (2 * pi), - (minY exact l t - 1/2) * pi)]"
    unfolding verticesSpec_def footprintAngles_def Let_def makeVertex_exact
    by (simp only: exact_ops list.map prod.case mult_minus_left)
  define left where "left = jmul exact (jmul exact (- minX exact l t) (Math_PI exact)) 2"
  define right where
    "right = jsub exact left (jmul exact (jmul exact (scaleX exact l t) (Math_PI exact)) 2)"
  define bottom where "bottom = jmul exact (- jsub exact (minY exact l t) (1/2)) (Math_PI exact)"
  define top where "top = jsub exact bottom (jmul exact (scaleY exact l t) (Math_PI exact))"
  have v: "vertices exact exact g t =
             Inr [makeVertex exact exact left top, makeVertex exact exact right top,
                  makeVertex exact exact right bottom, makeVertex exact exact left bottom]"
    unfolding vertices_def Let_def left_def right_def bottom_def top_def
    using assms by (simp only: option.case)
  have l: "left = - minX exact l t * (2 * pi)"
    unfolding left_def by simp
  have r: "right = - (minX exact l t + scaleX exact l t) * (2 * pi)"
    unfolding right_def l by (simp add: algebra_simps)
  have b: "bottom = - (minY exact l t - 1/2) * pi"
    unfolding bottom_def by simp
  have t: "top = - (minY exact l t + scaleY exact l t - 1/2) * pi"
    unfolding top_def b by (simp add: algebra_simps)
  have 2: "vertices exact exact g t = Inr (verticesSpec exact exact l t)"
    unfolding v 3 makeVertex_exact l r b t by (simp only: list.map prod.case)
  from 1 2 3 makeVertex_origin show ?thesis by (intro conjI)
qed

theorem vertices_projection_witness:
  "levelAt \<lparr>levelList = [\<lparr>width = 1024, height = 1024, tileWidth = 512, tileHeight = 512\<rparr>],
            neighborsCache = []\<rparr> (z \<lparr>x = 0, y = 1, z = 0\<rparr>)
     = Some \<lparr>width = 1024, height = 1024, tileWidth = 512, tileHeight = 512\<rparr>
   \<and> (case vertices fl fround
            \<lparr>levelList = [\<lparr>width = 1024, height = 1024, tileWidth = 512, tileHeight = 512\<rparr>],
             neighborsCache = []\<rparr> \<lparr>x = 0, y = 1, z = 0\<rparr>
       of Inl e \<Rightarrow> False | Inr vs \<Rightarrow> length vs = 4 \<and> vs ! 3 = (0, 0, 1))
   \<and> vertices exact exact
            \<lparr>levelList = [\<lparr>width = 1024, height = 1024, tileWidth = 512, tileHeight = 512\<rparr>],
             neighborsCache = []\<rparr> \<lparr>x = 0, y = 1, z = 0\<rparr>
     = Inr [(0, 1, 0), (0, 1, 0), (0, 0, - 1), (0, 0, 1)]"
proof -
  let ?l = "\<lparr>width = 1024, height = 1024, tileWidth = 512, tileHeight = 512\<rparr>"
  let ?g = "\<lparr>levelList = [?l], neighborsCache = []\<rparr>"
  let ?t = "\<lparr>x = 0, y = 1, z = 0\<rparr>"
  have h: "levelAt ?g (z ?t) = Some ?l" by (simp add: levelAt_def)
  have mx: "minX fl ?l ?t = 0" by code_simp
  have my: "jsub fl (minY fl ?l ?t) (1/2) = 0" by code_simp
  have left: "jmul fl (jmul fl (- minX fl ?l ?t) (Math_PI fl)) 2 = 0"
    by (simp add: mx jmul_def fl_consts)
  have bottom: "jmul fl (- jsub fl (minY fl ?l ?t) (1/2)) (Math_PI fl) = 0"
    unfolding my by (simp add: jmul_def fl_consts)
  have m: "minX exact ?l ?t = 0" "minY exact ?l ?t = 1/2"
          "scaleX exact ?l ?t = 1/2" "scaleY exact ?l ?t = 1/2"
    by (simp_all add: minX_def minY_def scaleX_def scaleY_def tile_width_def tile_height_def
        numHorizontalTiles_def numVerticalTiles_def util_mod_def)
  note th = vertices_projection[OF h]
  have a: "case vertices fl fround ?g ?t of Inl e \<Rightarrow> False
           | Inr vs \<Rightarrow> length vs = 4 \<and> vs ! 3 = (0, 0, 1)"
    unfolding th[THEN conjunct1] Let_def left bottom
    by (simp add: Math_sin_def Math_cos_def jmul_def fl_consts fround_consts)
  have b: "vertices exact exact ?g ?t = Inr [(0, 1, 0), (0, 1, 0), (0, 0, - 1), (0, 0, 1)]"
    using th[THEN conjunct2] by (simp add: m)
  from h a b show ?thesis by (intro conjI)
qed

text \<open>
  C8. Closest tile. For a view direction and a level of the geometry, of positive
  dimensions, \<^verbatim>\<open>_closestTile\<close> returns, in exact arithmetic, the tile of column
  \<open>floor ((yaw / 2\<pi> + 1/2) * levelWidth / tileWidth) mod tileColumns\<close> and of row
  \<open>floor ((- pitch / \<pi> + 1/2) * levelHeight / tileHeight)\<close> clamped to
  \<open>[0, tileRows - 1]\<close>, at the requested level, and this is a tile address. In doubles it
  returns the tile of the same formula with each operation rounded.
\<close>

theorem closestTile_formula:
  assumes "levelAt g (int i) = Some l" and "positiveLevel l" and "0 < numVerticalTiles fl l"
    and "numVerticalTiles fl l < 2 ^ 53"
  shows "closestTile exact g v (OwnLevel i) =
           Inr \<lparr>x = of_int (\<lfloor>(yaw v / (2 * pi) + 1/2) * of_int (width l) / of_int (tileWidth l)\<rfloor>
                            mod numHorizontalTiles exact l),
                y = of_int (min (max \<lfloor>(- pitch v / pi + 1/2) * of_int (height l) / of_int (tileHeight l)\<rfloor> 0)
                                (numVerticalTiles exact l - 1)),
                z = int i\<rparr>
       \<and> (\<exists>t. closestTile exact g v (OwnLevel i) = Inr t \<and> tileAddress exact g t)
       \<and> closestTile fl g v (OwnLevel i) =
           Inr \<lparr>x = of_int (\<lfloor>jdiv fl (jmul fl (jadd fl (jdiv fl (yaw v) (jmul fl 2 (Math_PI fl))) (1/2))
                                              (of_int (width l))) (of_int (tileWidth l))\<rfloor>
                            mod numHorizontalTiles fl l),
                y = of_int (min (max \<lfloor>jdiv fl (jmul fl (jadd fl (jdiv fl (- pitch v) (Math_PI fl)) (1/2))
                                                   (of_int (height l))) (of_int (tileHeight l))\<rfloor> 0)
                                (numVerticalTiles fl l - 1)),
                z = int i\<rparr>"
proof -
  let ?N = "numHorizontalTiles exact l" and ?M = "numVerticalTiles exact l"
  let ?fx = "\<lfloor>(yaw v / (2 * pi) + 1/2) * of_int (width l) / of_int (tileWidth l)\<rfloor>"
  let ?fy = "\<lfloor>(- pitch v / pi + 1/2) * of_int (height l) / of_int (tileHeight l)\<rfloor>"
  let ?t = "\<lparr>x = of_int (?fx mod ?N), y = of_int (min (max ?fy 0) (?M - 1)), z = int i\<rparr>"
  note pos = numTiles_exact_pos[OF assms(2)]
  have 1: "closestTile exact g v (OwnLevel i) = Inr ?t"
    using assms(1)
    by (simp add: closestTile_def argLevel_def indexOf_def util_mod_def util_clamp_def Let_def)
  have "0 \<le> ?fx mod ?N" "?fx mod ?N < ?N" using pos by simp_all
  moreover have "0 \<le> min (max ?fy 0) (?M - 1)" "min (max ?fy 0) (?M - 1) < ?M" using pos by simp_all
  ultimately have 2: "tileAddress exact g ?t"
    using assms(1) by (simp add: tileAddress_def del: of_int_min of_int_max)
  have f: "fl (of_int (numVerticalTiles fl l) - 1) = of_int (numVerticalTiles fl l - 1)"
    using fl_of_int[of "numVerticalTiles fl l - 1"] assms(3,4) by simp
  have 3: "closestTile fl g v (OwnLevel i) =
           Inr \<lparr>x = of_int (\<lfloor>jdiv fl (jmul fl (jadd fl (jdiv fl (yaw v) (jmul fl 2 (Math_PI fl))) (1/2))
                                              (of_int (width l))) (of_int (tileWidth l))\<rfloor>
                            mod numHorizontalTiles fl l),
                y = of_int (min (max \<lfloor>jdiv fl (jmul fl (jadd fl (jdiv fl (- pitch v) (Math_PI fl)) (1/2))
                                                   (of_int (height l))) (of_int (tileHeight l))\<rfloor> 0)
                                (numVerticalTiles fl l - 1)),
                z = int i\<rparr>"
    using assms(1)
    by (simp add: closestTile_def argLevel_def indexOf_def util_mod_def util_clamp_def Let_def
        jsub_def f del: of_int_diff)
  from 1 2 3 show ?thesis by (intro conjI exI[of _ ?t]) simp_all
qed

theorem closestTile_formula_witness:
  "levelAt \<lparr>levelList = [\<lparr>width = 4096, height = 2048, tileWidth = 512, tileHeight = 512\<rparr>],
            neighborsCache = []\<rparr> (int 0)
     = Some \<lparr>width = 4096, height = 2048, tileWidth = 512, tileHeight = 512\<rparr>
   \<and> positiveLevel \<lparr>width = 4096, height = 2048, tileWidth = 512, tileHeight = 512\<rparr>
   \<and> numVerticalTiles fl \<lparr>width = 4096, height = 2048, tileWidth = 512, tileHeight = 512\<rparr> = 4
   \<and> closestTile exact \<lparr>levelList = [\<lparr>width = 4096, height = 2048, tileWidth = 512, tileHeight = 512\<rparr>],
            neighborsCache = []\<rparr> \<lparr>yaw = pi, pitch = 0, size_width = 800, size_height = 600\<rparr> (OwnLevel 0)
     = Inr \<lparr>x = 0, y = 2, z = 0\<rparr>"
proof -
  let ?l = "\<lparr>width = 4096, height = 2048, tileWidth = 512, tileHeight = 512\<rparr>"
  let ?g = "\<lparr>levelList = [?l], neighborsCache = []\<rparr>"
  let ?v = "\<lparr>yaw = pi, pitch = 0, size_width = 800, size_height = 600\<rparr>"
  have h1: "levelAt ?g (int 0) = Some ?l" by (simp add: levelAt_def)
  have h2: "positiveLevel ?l" by (simp add: positiveLevel_def)
  have f: "fl 4 = 4" using fl_of_int[of 4] by simp
  have n: "numVerticalTiles fl ?l = 4" by (simp add: numVerticalTiles_def jdiv_def f)
  have h3: "0 < numVerticalTiles fl ?l" "numVerticalTiles fl ?l < 2 ^ 53" by (simp_all add: n)
  have e: "numHorizontalTiles exact ?l = 8" "numVerticalTiles exact ?l = 4"
    by (simp_all add: numHorizontalTiles_def numVerticalTiles_def)
  from closestTile_formula[OF h1 h2 h3, of ?v] h1 h2 n show ?thesis
    by (simp add: e)
qed

end
